theory Spec2Isabelle
  imports Main
begin

section \<open>The LRU cache with item expiry: data model\<close>

text \<open>
  The repository holds two iterations of the engine in package \<open>simplelru\<close>:
  \<^item> \<open>src/unnamed/part_001\<close>: the engine behind the interface \<open>LRUCache\<close> of
    \<open>src/simplelru/lru_interface.go\<close> (\<open>AddWithExp\<close>, \<open>ItemCount\<close>, \<open>ExpiryForKey\<close>,
    \<open>MoveItem\<close>). Its functions keep their names here.
  \<^item> \<open>src/unnamed/part_002\<close>: the engine with the \<open>expiryBasedEvict\<close> flag. Its functions
    carry the suffix \<open>2\<close> (\<open>Add2\<close>, \<open>Get2\<close>, ...), its struct is the record \<open>LRU2\<close>.

  Functions whose bodies are the same text in both files (\<open>removeElement\<close>,
  \<open>KeyHasExpired\<close>/\<open>keyHasExpired\<close>, \<open>findExpired\<close>, \<open>Keys\<close>, \<open>Values\<close>, \<open>Len\<close>,
  \<open>RemoveExpired\<close>, \<open>Purge\<close>) are defined once, over the record scheme, and serve both engines.

  Time: a \<open>time.Time\<close> is an \<open>int\<close> (an instant), \<open>0\<close> being Go's zero \<open>time.Time{}\<close>, so
  \<open>t.IsZero()\<close> is \<open>t = 0\<close>, \<open>a.Before(b)\<close> is \<open>a < b\<close> and \<open>t.Add(d)\<close> is \<open>t + d\<close>. A
  \<open>time.Duration\<close> is an \<open>int\<close>. The code reads the clock (\<open>time.Now()\<close>) at each test
  of an expiry; here every operation takes one reading \<open>now\<close> as an argument, which
  stands for all the readings of that operation: the operation is taken to run within
  one instant of the clock.

  Zero values: Go's zero value of the key type \<open>K\<close> and of the value type \<open>V\<close> is \<open>0\<close> of
  the type class \<open>zero\<close>; a naked \<open>return\<close> returns the named results, which are these
  zero values unless assigned.

  Pointers: \<open>items\<close> is \<open>map[K]*entry\<close>; an \<open>*entry\<close> is modelled by the key of the
  entry, and \<open>items\<close> maps a key to the value held by the entry its pointer refers to.
  An assignment through the pointer (\<open>ent.value = value\<close>) writes the list and the map
  alike.

  The callback \<open>onEvict\<close>: the field \<open>onEvict\<close> says whether a callback is set
  (\<open>c.onEvict != nil\<close>); the calls made so far are recorded, oldest first, in the ghost
  field \<open>evictCalls\<close>.

  Panics (an index or a length out of range, a nil pointer dereferenced) are the value
  \<open>None\<close> of the operation.
\<close>

datatype error = Error string

type_synonym ('k, 'v) entry = "'k \<times> 'v"

record ('k, 'v) LRU =
  size_cap :: int                         \<comment> \<open>field \<open>size\<close>\<close>
  evictList :: "('k, 'v) entry list"      \<comment> \<open>the nodes of the list, front first\<close>
  rootUnlinked :: bool                    \<comment> \<open>the sentinel of the list has been unlinked\<close>
  items :: "'k \<rightharpoonup> 'v"                    \<comment> \<open>\<open>map[K]*entry\<close>: the entry indexed under a key\<close>
  onEvict :: bool
  itemTTL :: int
  itemExpiries :: "'k \<rightharpoonup> int"
  evictCalls :: "('k, 'v) entry list"

record ('k, 'v) LRU2 = "('k, 'v) LRU" +
  expiryBasedEvict :: bool

subsection \<open>The recency list\<close>

text \<open>
  The recency list (type \<open>lruList\<close> with \<open>newList\<close>, \<open>pushFront\<close>, \<open>moveToFront\<close>,
  \<open>remove\<close>, \<open>back\<close>, \<open>length\<close>, \<open>init\<close>, and type \<open>entry\<close> with \<open>prevEntry\<close> and the
  fields \<open>key\<close>, \<open>value\<close>, \<open>prev\<close>) is used by both engines and is not under \<open>src/\<close>. The
  spec (3 and 4.1) gives it as an ordered sequence of nodes, front the most recently
  touched, back the least, each node holding one (key, value) entry, with the
  operations \<open>pushFront(key, value) -> node\<close>, \<open>moveToFront(node)\<close>, \<open>remove(node)\<close>,
  \<open>back() -> node|none\<close>, \<open>length() -> int\<close> and \<open>clear()\<close>. The interface file says
  the package is based on Go's \<open>container/list\<close>: the list is a ring of nodes closed
  by a sentinel \<open>root\<close>, whose \<open>next\<close> is the front and whose \<open>prev\<close> is the back, with a
  counter \<open>len\<close> of the nodes; the key and the value of the sentinel are zero values.

  Here the nodes are a HOL list of entries, front first, and the empty list of
  \<open>newList\<close> and \<open>init\<close> is \<open>[]\<close>. A node reference (\<open>*entry\<close>) is the key of its
  entry: keys are unique in the list (\<open>well_formed\<close> below). A traversal from \<open>back()\<close>
  runs over \<open>rev (evictList c)\<close>. At the front node the method \<open>ent.prevEntry()\<close> is nil,
  and the raw field \<open>ent.prev\<close>, which only \<open>getOldest\<close> of part_001 reads, is the
  sentinel.

  The sentinel can be handed to \<open>remove\<close> (by part_001, see \<open>getOldest\<close>): \<open>remove\<close>
  then sets the pointers of the sentinel to nil and decrements \<open>len\<close>. The field
  \<open>rootUnlinked\<close> records that state. No node is linked then, \<open>back()\<close> is the nil
  \<open>root.prev\<close>, \<open>length()\<close> is -1, and the next \<open>pushFront\<close> or \<open>init\<close> makes the ring
  anew.
\<close>

text \<open>Modelled from the spec: \<open>length() -> int\<close> of the missing list, the counter
  \<open>len\<close>: the number of nodes, less one when the sentinel has been unlinked.\<close>

definition list_len :: "('k, 'v, 'z) LRU_scheme \<Rightarrow> int" where
  "list_len c = int (length (evictList c)) - (if rootUnlinked c then 1 else 0)"

text \<open>Modelled from the spec: \<open>lazyInit()\<close> of the missing list, the first statement
  of its \<open>pushFront\<close> as in \<open>container/list\<close>: a list whose \<open>root.next\<close> is nil is
  initialised (an empty ring, \<open>len\<close> 0).\<close>

definition lazyInit :: "('k, 'v, 'z) LRU_scheme \<Rightarrow> ('k, 'v, 'z) LRU_scheme" where
  "lazyInit c = (if rootUnlinked c then c\<lparr>evictList := [], rootUnlinked := False\<rparr> else c)"

text \<open>Modelled from the spec: \<open>pushFront(key, value)\<close> of the missing list, a new node at
  the front.\<close>

definition pushFront :: "'k \<Rightarrow> 'v \<Rightarrow> ('k, 'v) entry list \<Rightarrow> ('k, 'v) entry list" where
  "pushFront k v l = (k, v) # l"

text \<open>Modelled from the spec: \<open>moveToFront(node)\<close> of the missing list; the node of key
  \<open>k\<close> goes to the front, the other nodes keep their order.\<close>

definition moveToFront :: "'k \<Rightarrow> ('k, 'v) entry list \<Rightarrow> ('k, 'v) entry list" where
  "moveToFront k l =
     (case find (\<lambda>e. fst e = k) l of
        None \<Rightarrow> l
      | Some e \<Rightarrow> e # filter (\<lambda>e. fst e \<noteq> k) l)"

text \<open>Modelled from the spec: \<open>remove(node)\<close> of the missing list; the node of key \<open>k\<close>
  is unlinked.\<close>

definition remove_node :: "'k \<Rightarrow> ('k, 'v) entry list \<Rightarrow> ('k, 'v) entry list" where
  "remove_node k l = filter (\<lambda>e. fst e \<noteq> k) l"

text \<open>Modelled from the spec: \<open>back() -> node|none\<close> of the missing list, the least
  recently used node.\<close>

definition back_node :: "('k, 'v) entry list \<Rightarrow> ('k, 'v) entry option" where
  "back_node l = (if l = [] then None else Some (last l))"

text \<open>Modelled from the spec: the field \<open>value\<close> of the missing type \<open>entry\<close>; the
  assignment \<open>ent.value = value\<close> through the node reference of key \<open>k\<close>.\<close>

definition set_value :: "'k \<Rightarrow> 'v \<Rightarrow> ('k, 'v) entry list \<Rightarrow> ('k, 'v) entry list" where
  "set_value k v l = map (\<lambda>e. if fst e = k then (k, v) else e) l"

text \<open>
  The structural invariant of the struct: the key index and the list hold the same
  entries, each key once (spec 3: \<open>length(RecencyList) == size(KeyIndex)\<close>).
\<close>

definition well_formed :: "('k, 'v, 'z) LRU_scheme \<Rightarrow> bool" where
  "well_formed c = (distinct (map fst (evictList c)) \<and> items c = map_of (evictList c))"

section \<open>Functions shared by both engines\<close>

text \<open>\<open>if c.onEvict != nil { c.onEvict(k, v) }\<close>\<close>

definition fire :: "('k, 'v, 'z) LRU_scheme \<Rightarrow> ('k, 'v) entry \<Rightarrow> ('k, 'v, 'z) LRU_scheme" where
  "fire c e = (if onEvict c then c\<lparr>evictCalls := evictCalls c @ [e]\<rparr> else c)"

definition KeyHasExpired :: "('k, 'v, 'z) LRU_scheme \<Rightarrow> int \<Rightarrow> 'k \<Rightarrow> bool" where
  "KeyHasExpired c now k =
     (case itemExpiries c k of None \<Rightarrow> False | Some expiry \<Rightarrow> expiry < now)"

definition ExpiryForKey :: "('k, 'v, 'z) LRU_scheme \<Rightarrow> 'k \<Rightarrow> int" where
  "ExpiryForKey c k = (case itemExpiries c k of None \<Rightarrow> 0 | Some expiry \<Rightarrow> expiry)"

text \<open>\<open>removeElement\<close> on a node of the list.\<close>

definition removeElement ::
  "('k, 'v, 'z) LRU_scheme \<Rightarrow> ('k, 'v) entry \<Rightarrow> ('k, 'v, 'z) LRU_scheme" where
  "removeElement c e =
     fire (c\<lparr>evictList := remove_node (fst e) (evictList c),
             items := (items c)(fst e := None),
             itemExpiries := (itemExpiries c)(fst e := None)\<rparr>) e"

definition findExpired :: "('k, 'v, 'z) LRU_scheme \<Rightarrow> int \<Rightarrow> ('k, 'v) entry option" where
  "findExpired c now = find (\<lambda>ent. KeyHasExpired c now (fst ent)) (rev (evictList c))"

text \<open>
  \<open>Keys\<close>: the slice \<open>keys\<close> is made with \<open>c.evictList.length()\<close>, and \<open>make\<close> panics on
  a negative length; the slice is written by index, and an index out of range, or a
  slice bound beyond the length, panics.
\<close>

fun Keys_loop ::
  "('k, 'v, 'z) LRU_scheme \<Rightarrow> int \<Rightarrow> ('k, 'v) entry list \<Rightarrow> 'k list \<Rightarrow> nat
     \<Rightarrow> ('k list \<times> nat) option" where
  "Keys_loop c now [] keys i = Some (keys, i)"
| "Keys_loop c now (ent # rest) keys i =
     (if \<not> KeyHasExpired c now (fst ent)
      then (if i < length keys then Keys_loop c now rest (keys[i := fst ent]) (Suc i)
            else None)
      else Keys_loop c now rest keys i)"

definition Keys :: "('k::zero, 'v, 'z) LRU_scheme \<Rightarrow> int \<Rightarrow> 'k list option" where
  "Keys c now =
     (if list_len c < 0 then None
      else
        (case Keys_loop c now (rev (evictList c)) (replicate (nat (list_len c)) 0) 0 of
           None \<Rightarrow> None
         | Some (keys, i) \<Rightarrow> if i \<le> length keys then Some (take i keys) else None))"

fun Values_loop ::
  "('k, 'v, 'z) LRU_scheme \<Rightarrow> int \<Rightarrow> ('k, 'v) entry list \<Rightarrow> 'v list \<Rightarrow> nat
     \<Rightarrow> ('v list \<times> nat) option" where
  "Values_loop c now [] vals i = Some (vals, i)"
| "Values_loop c now (ent # rest) vals i =
     (if \<not> KeyHasExpired c now (fst ent)
      then (if i < length vals then Values_loop c now rest (vals[i := snd ent]) (Suc i)
            else None)
      else Values_loop c now rest vals i)"

definition Values :: "('k, 'v::zero, 'z) LRU_scheme \<Rightarrow> int \<Rightarrow> 'v list option" where
  "Values c now =
     (case Values_loop c now (rev (evictList c)) (replicate (card (dom (items c))) 0) 0 of
        None \<Rightarrow> None
      | Some (vals, i) \<Rightarrow> if i \<le> length vals then Some (take i vals) else None)"

definition Len :: "('k::zero, 'v, 'z) LRU_scheme \<Rightarrow> int \<Rightarrow> nat option" where
  "Len c now = map_option length (Keys c now)"

text \<open>\<open>ItemCount\<close> (part_001) and \<open>ActualLen\<close> (part_002) have the body of \<open>Len\<close>.\<close>

definition ItemCount :: "('k::zero, 'v, 'z) LRU_scheme \<Rightarrow> int \<Rightarrow> nat option" where
  "ItemCount c now = map_option length (Keys c now)"

definition ActualLen :: "('k::zero, 'v, 'z) LRU_scheme \<Rightarrow> int \<Rightarrow> nat option" where
  "ActualLen c now = map_option length (Keys c now)"

fun RemoveExpired_loop ::
  "('k, 'v, 'z) LRU_scheme \<Rightarrow> int \<Rightarrow> ('k, 'v) entry list \<Rightarrow> nat
     \<Rightarrow> ('k, 'v, 'z) LRU_scheme \<times> nat" where
  "RemoveExpired_loop c now [] evicted = (c, evicted)"
| "RemoveExpired_loop c now (ent # rest) evicted =
     (if KeyHasExpired c now (fst ent)
      then RemoveExpired_loop (removeElement c ent) now rest (Suc evicted)
      else RemoveExpired_loop c now rest evicted)"

definition RemoveExpired ::
  "('k, 'v, 'z) LRU_scheme \<Rightarrow> int \<Rightarrow> ('k, 'v, 'z) LRU_scheme \<times> nat" where
  "RemoveExpired c now = RemoveExpired_loop c now (rev (evictList c)) 0"

text \<open>
  \<open>Purge\<close> ranges over the map \<open>c.items\<close>; Go leaves the order of that iteration
  unspecified, so the keys in the order the runtime visits them are the argument
  \<open>order\<close>. For each key the callback is called with the entry's value, and the key is
  deleted from \<open>items\<close> and \<open>itemExpiries\<close>; then the list is reset by \<open>init\<close>.
\<close>

fun Purge_loop :: "('k, 'v, 'z) LRU_scheme \<Rightarrow> 'k list \<Rightarrow> ('k, 'v, 'z) LRU_scheme" where
  "Purge_loop c [] = c"
| "Purge_loop c (k # ks) =
     (case items c k of
        None \<Rightarrow> Purge_loop c ks
      | Some v \<Rightarrow>
          Purge_loop ((fire c (k, v))\<lparr>items := (items c)(k := None),
                                     itemExpiries := (itemExpiries c)(k := None)\<rparr>) ks)"

definition Purge :: "('k, 'v, 'z) LRU_scheme \<Rightarrow> 'k list \<Rightarrow> ('k, 'v, 'z) LRU_scheme" where
  "Purge c order = (Purge_loop c order)\<lparr>evictList := [], rootUnlinked := False\<rparr>"

text \<open>
  Go's \<open>int\<close> is 64 bits wide: the subtraction \<open>c.Len() - size\<close> of \<open>Resize\<close> wraps.
\<close>

definition wrap64 :: "int \<Rightarrow> int" where
  "wrap64 x = (x + 2 ^ 63) mod 2 ^ 64 - 2 ^ 63"

section \<open>The engine of \<open>src/unnamed/part_001\<close>\<close>

definition NewLRUWithEvictTTL :: "int \<Rightarrow> bool \<Rightarrow> int \<Rightarrow> error + ('k, 'v) LRU" where
  "NewLRUWithEvictTTL sz cb ttl =
     (if sz \<le> 0 then Inl (Error ''must provide a positive size'')
      else Inr \<lparr>size_cap = sz, evictList = [], rootUnlinked = False, items = Map.empty,
                onEvict = cb, itemTTL = ttl, itemExpiries = Map.empty, evictCalls = []\<rparr>)"

definition NewLRU :: "int \<Rightarrow> bool \<Rightarrow> error + ('k, 'v) LRU" where
  "NewLRU sz cb = NewLRUWithEvictTTL sz cb 0"

text \<open>
  What \<open>getOldest\<close> returns and \<open>removeElement\<close> receives is a pointer \<open>*entry\<close>: a
  node of the list, or the sentinel \<open>root\<close>, whose key and value are zero values.
\<close>

datatype ('k, 'v) node = Node "('k, 'v) entry" | Root

fun node_key :: "('k::zero, 'v) node \<Rightarrow> 'k" where
  "node_key (Node ent) = fst ent"
| "node_key Root = 0"

fun node_value :: "('k, 'v::zero) node \<Rightarrow> 'v" where
  "node_value (Node ent) = snd ent"
| "node_value Root = 0"

text \<open>
  \<open>removeElement\<close> on the sentinel. Modelled from the spec, for \<open>remove\<close> of the
  missing list as in \<open>container/list\<close>: \<open>remove(e)\<close> links \<open>e.prev\<close> and \<open>e.next\<close> to
  each other, sets the pointers of \<open>e\<close> to nil and decrements \<open>len\<close>. On the sentinel of
  a ring with no node this leaves \<open>root.next = root.prev = nil\<close> and \<open>len = -1\<close>; on a
  sentinel already unlinked, \<open>e.prev.next\<close> dereferences nil: a panic. Then
  \<open>removeElement\<close> deletes the zero key from \<open>items\<close> and \<open>itemExpiries\<close> and calls the
  callback with the zero key and the zero value. The sentinel is reached by
  \<open>getOldest\<close> only when no node is left in the list.
\<close>

definition removeRoot ::
  "('k::zero, 'v::zero, 'z) LRU_scheme \<Rightarrow> ('k, 'v, 'z) LRU_scheme option" where
  "removeRoot c =
     (if rootUnlinked c then None
      else Some (fire (c\<lparr>rootUnlinked := True,
                         items := (items c)(0 := None),
                         itemExpiries := (itemExpiries c)(0 := None)\<rparr>) (0, 0)))"

definition removeNode ::
  "('k::zero, 'v::zero, 'z) LRU_scheme \<Rightarrow> ('k, 'v) node \<Rightarrow> ('k, 'v, 'z) LRU_scheme option" where
  "removeNode c n = (case n of Node ent \<Rightarrow> Some (removeElement c ent) | Root \<Rightarrow> removeRoot c)"

text \<open>
  \<open>getOldest\<close>: the loop starts at \<open>back()\<close>, removes every expired node it meets and
  returns the first node that has not expired. It steps by the raw field:
  \<open>next = ent.prev\<close>, read before the removal. At the front node \<open>ent.prev\<close> is the
  sentinel, which is not nil, so after the front node the loop goes on with the
  sentinel (\<open>getOldest_root\<close>): it tests the expiry of the zero key, and either returns the
  sentinel or removes it and goes on with its \<open>prev\<close>, the sentinel again (the ring
  has no node then).
\<close>

function getOldest_root ::
  "('k::zero, 'v::zero) LRU \<Rightarrow> int \<Rightarrow> (('k, 'v) LRU \<times> ('k, 'v) node option) option" where
  "getOldest_root c now =
     (if \<not> KeyHasExpired c now 0 then Some (c, Some Root)
      else (case removeRoot c of
              None \<Rightarrow> None
            | Some c' \<Rightarrow> getOldest_root c' now))"
  by pat_completeness auto
termination
  by (relation "measure (\<lambda>(c, now). if KeyHasExpired c now 0 then 1 else 0)")
     (auto simp: removeRoot_def KeyHasExpired_def fire_def split: if_splits)

declare getOldest_root.simps [simp del]

fun getOldest_loop ::
  "('k::zero, 'v::zero) LRU \<Rightarrow> int \<Rightarrow> ('k, 'v) entry list
     \<Rightarrow> (('k, 'v) LRU \<times> ('k, 'v) node option) option" where
  "getOldest_loop c now [] = getOldest_root c now"
| "getOldest_loop c now (ent # rest) =
     (if \<not> KeyHasExpired c now (fst ent) then Some (c, Some (Node ent))
      else getOldest_loop (removeElement c ent) now rest)"

definition getOldest ::
  "('k::zero, 'v::zero) LRU \<Rightarrow> int \<Rightarrow> bool
     \<Rightarrow> (('k, 'v) LRU \<times> ('k, 'v) node option) option" where
  "getOldest c now includeExpired =
     (case (if itemTTL c > 0 \<and> includeExpired then findExpired c now else None) of
        Some ent \<Rightarrow> Some (c, Some (Node ent))
      | None \<Rightarrow>
          (case back_node (evictList c) of
             None \<Rightarrow> Some (c, None)
           | Some b \<Rightarrow> getOldest_loop c now (rev (evictList c))))"

definition removeOldest :: "('k::zero, 'v::zero) LRU \<Rightarrow> int \<Rightarrow> ('k, 'v) LRU option" where
  "removeOldest c now =
     (case getOldest c now True of
        None \<Rightarrow> None
      | Some (c', Some n) \<Rightarrow> removeNode c' n
      | Some (c', None) \<Rightarrow> Some c')"

definition AddWithExp ::
  "('k::zero, 'v::zero) LRU \<Rightarrow> int \<Rightarrow> 'k \<Rightarrow> 'v \<Rightarrow> int \<Rightarrow> (('k, 'v) LRU \<times> bool) option" where
  "AddWithExp c now key val expiry =
     (case items c key of
        Some old \<Rightarrow>
          (let c1 = c\<lparr>evictList := moveToFront key (evictList c)\<rparr>;
               c2 = fire c1 (key, old);
               c3 = c2\<lparr>evictList := set_value key val (evictList c2),
                       items := (items c2)(key \<mapsto> val)\<rparr>
           in Some (c3, False))
      | None \<Rightarrow>
          (let c0 = lazyInit c;
               c1 = c0\<lparr>evictList := pushFront key val (evictList c0),
                       items := (items c0)(key \<mapsto> val)\<rparr>;
               c2 = (if expiry \<noteq> 0 then c1\<lparr>itemExpiries := (itemExpiries c1)(key \<mapsto> expiry)\<rparr>
                     else if itemTTL c1 > 0
                     then c1\<lparr>itemExpiries := (itemExpiries c1)(key \<mapsto> now + itemTTL c1)\<rparr>
                     else c1);
               evict = (list_len c2 > size_cap c2)
           in (if evict then map_option (\<lambda>c'. (c', True)) (removeOldest c2 now)
               else Some (c2, False))))"

definition Add ::
  "('k::zero, 'v::zero) LRU \<Rightarrow> int \<Rightarrow> 'k \<Rightarrow> 'v \<Rightarrow> (('k, 'v) LRU \<times> bool) option" where
  "Add c now key val = AddWithExp c now key val 0"

definition Get :: "('k, 'v::zero) LRU \<Rightarrow> int \<Rightarrow> 'k \<Rightarrow> ('k, 'v) LRU \<times> 'v \<times> bool" where
  "Get c now key =
     (case items c key of
        Some v \<Rightarrow>
          (if \<not> KeyHasExpired c now key
           then (if \<not> KeyHasExpired c now key
                 then (c\<lparr>evictList := moveToFront key (evictList c)\<rparr>, v, True)
                 else (removeElement c (key, v), 0, False))
           else (c, 0, False))
      | None \<Rightarrow> (c, 0, False))"

definition Contains :: "('k, 'v) LRU \<Rightarrow> int \<Rightarrow> 'k \<Rightarrow> ('k, 'v) LRU \<times> bool" where
  "Contains c now key =
     (case items c key of
        Some v \<Rightarrow>
          (if \<not> KeyHasExpired c now key then (c, True)
           else (removeElement c (key, v), False))
      | None \<Rightarrow> (c, False))"

text \<open>
  \<open>Peek\<close> assigns the named result \<open>ok\<close> in \<open>ent, ok = c.items[key]\<close>; the naked
  \<open>return\<close> after the removal of an expired entry returns that \<open>ok\<close>.
\<close>

definition Peek :: "('k, 'v::zero) LRU \<Rightarrow> int \<Rightarrow> 'k \<Rightarrow> ('k, 'v) LRU \<times> 'v \<times> bool" where
  "Peek c now key =
     (case items c key of
        Some v \<Rightarrow>
          (let ok = True in
           if \<not> KeyHasExpired c now key then (c, v, True)
           else (removeElement c (key, v), 0, ok))
      | None \<Rightarrow> (c, 0, False))"

text \<open>\<open>Remove\<close>: the removal is deferred, so the expiry is read before it.\<close>

definition Remove :: "('k, 'v) LRU \<Rightarrow> int \<Rightarrow> 'k \<Rightarrow> ('k, 'v) LRU \<times> bool" where
  "Remove c now key =
     (case items c key of
        Some v \<Rightarrow>
          (if \<not> KeyHasExpired c now key then (removeElement c (key, v), True)
           else (removeElement c (key, v), False))
      | None \<Rightarrow> (c, False))"

text \<open>
  \<open>RemoveOldest\<close> and \<open>GetOldest\<close> return \<open>ent.key\<close> and \<open>ent.value\<close> of what
  \<open>getOldest(false)\<close> returned, with ok = true: the zero values when it is the sentinel.
\<close>

definition RemoveOldest ::
  "('k::zero, 'v::zero) LRU \<Rightarrow> int \<Rightarrow> (('k, 'v) LRU \<times> 'k \<times> 'v \<times> bool) option" where
  "RemoveOldest c now =
     (case getOldest c now False of
        None \<Rightarrow> None
      | Some (c', Some n) \<Rightarrow>
          map_option (\<lambda>c''. (c'', node_key n, node_value n, True)) (removeNode c' n)
      | Some (c', None) \<Rightarrow> Some (c', 0, 0, False))"

definition GetOldest ::
  "('k::zero, 'v::zero) LRU \<Rightarrow> int \<Rightarrow> (('k, 'v) LRU \<times> 'k \<times> 'v \<times> bool) option" where
  "GetOldest c now =
     (case getOldest c now False of
        None \<Rightarrow> None
      | Some (c', Some n) \<Rightarrow> Some (c', node_key n, node_value n, True)
      | Some (c', None) \<Rightarrow> Some (c', 0, 0, False))"

fun removeOldest_times ::
  "nat \<Rightarrow> ('k::zero, 'v::zero) LRU \<Rightarrow> int \<Rightarrow> ('k, 'v) LRU option" where
  "removeOldest_times 0 c now = Some c"
| "removeOldest_times (Suc n) c now =
     (case removeOldest c now of
        None \<Rightarrow> None
      | Some c' \<Rightarrow> removeOldest_times n c' now)"

definition Resize ::
  "('k::zero, 'v::zero) LRU \<Rightarrow> int \<Rightarrow> int \<Rightarrow> (('k, 'v) LRU \<times> int) option" where
  "Resize c now sz =
     (case Len c now of
        None \<Rightarrow> None
      | Some len \<Rightarrow>
          (let diff0 = wrap64 (int len - sz);
               diff = (if diff0 < 0 then 0 else diff0)
           in (case removeOldest_times (nat diff) c now of
                 None \<Rightarrow> None
               | Some c' \<Rightarrow> Some (c'\<lparr>size_cap := sz\<rparr>, diff))))"

definition ChangeExpiry ::
  "('k, 'v::zero) LRU \<Rightarrow> int \<Rightarrow> 'k \<Rightarrow> int \<Rightarrow> ('k, 'v) LRU \<times> bool" where
  "ChangeExpiry c now key expiry =
     (case Peek c now key of
        (c', _, ok) \<Rightarrow>
          if ok then (c'\<lparr>itemExpiries := (itemExpiries c')(key \<mapsto> expiry)\<rparr>, True)
          else (c', False))"

text \<open>
  \<open>MoveItem(key, dest, src)\<close>, on two caches of this engine; the result is the
  destination, the source and the pair returned. The argument \<open>src.ExpiryForKey(key)\<close>
  of \<open>dest.AddWithExp\<close> is evaluated after the statement \<open>src.Remove(key)\<close>.
\<close>

definition MoveItem ::
  "'k \<Rightarrow> ('k::zero, 'v::zero) LRU \<Rightarrow> ('k, 'v) LRU \<Rightarrow> int
     \<Rightarrow> (('k, 'v) LRU \<times> ('k, 'v) LRU \<times> 'v \<times> bool) option" where
  "MoveItem key dest src now =
     (case Peek src now key of
        (src1, val, ok) \<Rightarrow>
          if ok then
            (if \<not> KeyHasExpired src1 now key
             then (let src2 = fst (Remove src1 now key)
                   in map_option (\<lambda>r. (fst r, src2, val, True))
                        (AddWithExp dest now key val (ExpiryForKey src2 key)))
             else Some (dest, src1, 0, False))
          else Some (dest, src1, 0, False))"

section \<open>The engine of \<open>src/unnamed/part_002\<close>\<close>

definition NewLRUWithEvictTTL2 :: "int \<Rightarrow> bool \<Rightarrow> int \<Rightarrow> bool \<Rightarrow> error + ('k, 'v) LRU2" where
  "NewLRUWithEvictTTL2 sz cb ttl ebe =
     (if sz \<le> 0 then Inl (Error ''must provide a positive size'')
      else Inr \<lparr>size_cap = sz, evictList = [], rootUnlinked = False, items = Map.empty,
                onEvict = cb, itemTTL = ttl, itemExpiries = Map.empty, evictCalls = [],
                expiryBasedEvict = ebe\<rparr>)"

definition NewLRU2 :: "int \<Rightarrow> bool \<Rightarrow> error + ('k, 'v) LRU2" where
  "NewLRU2 sz cb = NewLRUWithEvictTTL2 sz cb 0 False"

definition removeOldest2 :: "('k, 'v) LRU2 \<Rightarrow> int \<Rightarrow> ('k, 'v) LRU2" where
  "removeOldest2 c now =
     (case (if expiryBasedEvict c then findExpired c now else None) of
        Some ent \<Rightarrow> removeElement c ent
      | None \<Rightarrow>
          (case back_node (evictList c) of
             Some ent \<Rightarrow> removeElement c ent
           | None \<Rightarrow> c))"

definition Add2 :: "('k, 'v) LRU2 \<Rightarrow> int \<Rightarrow> 'k \<Rightarrow> 'v \<Rightarrow> ('k, 'v) LRU2 \<times> bool" where
  "Add2 c now key val =
     (case items c key of
        Some old \<Rightarrow>
          (let c1 = c\<lparr>evictList := moveToFront key (evictList c)\<rparr>;
               c2 = fire c1 (key, old);
               c3 = c2\<lparr>evictList := set_value key val (evictList c2),
                       items := (items c2)(key \<mapsto> val)\<rparr>
           in (c3, False))
      | None \<Rightarrow>
          (let c0 = lazyInit c;
               c1 = c0\<lparr>evictList := pushFront key val (evictList c0),
                       items := (items c0)(key \<mapsto> val)\<rparr>;
               c2 = (if itemTTL c1 > 0
                     then c1\<lparr>itemExpiries := (itemExpiries c1)(key \<mapsto> now + itemTTL c1)\<rparr>
                     else c1);
               evict = (list_len c2 > size_cap c2)
           in (if evict then removeOldest2 c2 now else c2, evict)))"

definition Get2 :: "('k, 'v::zero) LRU2 \<Rightarrow> int \<Rightarrow> 'k \<Rightarrow> ('k, 'v) LRU2 \<times> 'v \<times> bool" where
  "Get2 c now key =
     (case items c key of
        Some v \<Rightarrow>
          (if \<not> KeyHasExpired c now key
           then (c\<lparr>evictList := moveToFront key (evictList c)\<rparr>, v, True)
           else (c, 0, False))
      | None \<Rightarrow> (c, 0, False))"

text \<open>
  \<open>Contains\<close> and \<open>Peek\<close> of this engine assign the named result \<open>ok\<close> in
  \<open>_, ok = c.items[key]\<close>; the naked \<open>return\<close> returns that \<open>ok\<close>.
\<close>

definition Contains2 :: "('k, 'v) LRU2 \<Rightarrow> int \<Rightarrow> 'k \<Rightarrow> ('k, 'v) LRU2 \<times> bool" where
  "Contains2 c now key =
     (let ok = (items c key \<noteq> None) in
      if ok \<and> \<not> KeyHasExpired c now key then (c, True) else (c, ok))"

definition Peek2 :: "('k, 'v::zero) LRU2 \<Rightarrow> int \<Rightarrow> 'k \<Rightarrow> ('k, 'v) LRU2 \<times> 'v \<times> bool" where
  "Peek2 c now key =
     (case items c key of
        Some v \<Rightarrow> (if \<not> KeyHasExpired c now key then (c, v, True) else (c, 0, True))
      | None \<Rightarrow> (c, 0, False))"

definition Remove2 :: "('k, 'v) LRU2 \<Rightarrow> int \<Rightarrow> 'k \<Rightarrow> ('k, 'v) LRU2 \<times> bool" where
  "Remove2 c now key =
     (case items c key of
        Some v \<Rightarrow>
          (if \<not> KeyHasExpired c now key then (removeElement c (key, v), True)
           else (removeElement c (key, v), False))
      | None \<Rightarrow> (c, False))"

text \<open>
  \<open>RemoveOldest\<close> and \<open>GetOldest\<close> of this engine test \<open>c.keyHasExpired(key)\<close> on the
  named result \<open>key\<close>, which still holds the zero value of \<open>K\<close>.
\<close>

definition RemoveOldest2 ::
  "('k::zero, 'v::zero) LRU2 \<Rightarrow> int \<Rightarrow> ('k, 'v) LRU2 \<times> 'k \<times> 'v \<times> bool" where
  "RemoveOldest2 c now =
     (case back_node (evictList c) of
        Some ent \<Rightarrow>
          (if \<not> KeyHasExpired c now 0 then (removeElement c ent, fst ent, snd ent, True)
           else (removeElement c ent, 0, 0, False))
      | None \<Rightarrow> (c, 0, 0, False))"


fun removeOldest2_times :: "nat \<Rightarrow> ('k, 'v) LRU2 \<Rightarrow> int \<Rightarrow> ('k, 'v) LRU2" where
  "removeOldest2_times 0 c now = c"
| "removeOldest2_times (Suc n) c now = removeOldest2_times n (removeOldest2 c now) now"

definition Resize2 :: "('k::zero, 'v) LRU2 \<Rightarrow> int \<Rightarrow> int \<Rightarrow> (('k, 'v) LRU2 \<times> int) option" where
  "Resize2 c now sz =
     (case Len c now of
        None \<Rightarrow> None
      | Some len \<Rightarrow>
          (let diff0 = wrap64 (int len - sz);
               diff = (if diff0 < 0 then 0 else diff0);
               c' = removeOldest2_times (nat diff) c now
           in Some (c'\<lparr>size_cap := sz\<rparr>, diff)))"

section \<open>Sequences of calls and concrete caches\<close>

text \<open>
  A call of \<open>Add\<close> or \<open>AddWithExp\<close> on the engine of part_001, with the clock reading at
  the call; \<open>run_adds\<close> makes the calls of a list one after the other, and is \<open>None\<close>
  when one of them panics. For the engine of part_002 a call of \<open>Add\<close> is the triple of
  the clock reading, the key and the value.
\<close>

datatype ('k, 'v) add_call = AddCall int 'k 'v | AddWithExpCall int 'k 'v int

fun add_step ::
  "('k::zero, 'v::zero) LRU \<Rightarrow> ('k, 'v) add_call \<Rightarrow> ('k, 'v) LRU option" where
  "add_step c (AddCall now key val) = map_option fst (Add c now key val)"
| "add_step c (AddWithExpCall now key val expiry) =
     map_option fst (AddWithExp c now key val expiry)"

fun run_adds ::
  "('k::zero, 'v::zero) LRU \<Rightarrow> ('k, 'v) add_call list \<Rightarrow> ('k, 'v) LRU option" where
  "run_adds c [] = Some c"
| "run_adds c (call # calls) =
     (case add_step c call of None \<Rightarrow> None | Some c' \<Rightarrow> run_adds c' calls)"

fun add_step2 :: "('k, 'v) LRU2 \<Rightarrow> int \<times> 'k \<times> 'v \<Rightarrow> ('k, 'v) LRU2" where
  "add_step2 c (now, key, val) = fst (Add2 c now key val)"

definition run_adds2 :: "('k, 'v) LRU2 \<Rightarrow> (int \<times> 'k \<times> 'v) list \<Rightarrow> ('k, 'v) LRU2" where
  "run_adds2 c calls = foldl add_step2 c calls"

text \<open>
  The state of \<open>Add\<close> on a new key after \<open>pushFront\<close>, the entry in \<open>items\<close> and the
  expiry map \<open>ex\<close>, before the capacity check, on a cache whose sentinel is linked.
\<close>

definition pushed ::
  "('k, 'v, 'z) LRU_scheme \<Rightarrow> 'k \<Rightarrow> 'v \<Rightarrow> ('k \<rightharpoonup> int) \<Rightarrow> ('k, 'v, 'z) LRU_scheme" where
  "pushed c key val ex =
     c\<lparr>evictList := (key, val) # evictList c, items := (items c)(key \<mapsto> val),
       itemExpiries := ex\<rparr>"

text \<open>
  Concrete caches of the engine of part_001, with \<open>int\<close> keys and values, capacity 2,
  a callback and no default TTL. \<open>lru0\<close> is what \<open>NewLRUWithEvictTTL 2 True 0\<close> returns.
  \<^item> \<open>lruA\<close> is \<open>lru0\<close> after \<open>AddWithExp(1, 10, expiry 5)\<close> and \<open>Add(2, 20)\<close> at instant 1:
    from instant 6 on, key 1, the least recently used, has expired; key 2 has no expiry.
  \<^item> \<open>lruB\<close> is \<open>lru0\<close> after \<open>AddWithExp(1, 10, expiry 5)\<close> and
    \<open>AddWithExp(2, 20, expiry 6)\<close> at instant 1: from instant 7 on both keys have expired.
  \<^item> \<open>lruX\<close> is \<open>lruB\<close> after \<open>AddWithExp(3, 30, expiry 7)\<close> at instant 10, when the
    three keys have expired: no node is left and the sentinel is unlinked.
  \<^item> \<open>lruE\<close> is \<open>lru0\<close> after \<open>AddWithExp(1, 10, expiry 5)\<close> at instant 1.
  \<^item> \<open>lruR\<close> is \<open>lruE\<close> after \<open>RemoveOldest\<close> at instant 10, when key 1 has expired: no
    node is left and the sentinel is unlinked.
  \<^item> \<open>lruS\<close> is \<open>lru0\<close> after \<open>AddWithExp(1, 10, expiry 100)\<close> at instant 1.
\<close>

definition lru0 :: "(int, int) LRU" where
  "lru0 = \<lparr>size_cap = 2, evictList = [], rootUnlinked = False, items = Map.empty,
            onEvict = True, itemTTL = 0, itemExpiries = Map.empty, evictCalls = []\<rparr>"

definition lruA :: "(int, int) LRU" where
  "lruA = \<lparr>size_cap = 2, evictList = [(2, 20), (1, 10)], rootUnlinked = False,
            items = [1 \<mapsto> 10, 2 \<mapsto> 20], onEvict = True, itemTTL = 0,
            itemExpiries = [1 \<mapsto> 5], evictCalls = []\<rparr>"

definition lruB :: "(int, int) LRU" where
  "lruB = \<lparr>size_cap = 2, evictList = [(2, 20), (1, 10)], rootUnlinked = False,
            items = [1 \<mapsto> 10, 2 \<mapsto> 20], onEvict = True, itemTTL = 0,
            itemExpiries = [1 \<mapsto> 5, 2 \<mapsto> 6], evictCalls = []\<rparr>"

definition lruX :: "(int, int) LRU" where
  "lruX = \<lparr>size_cap = 2, evictList = [], rootUnlinked = True,
            items = Map.empty, onEvict = True, itemTTL = 0,
            itemExpiries = Map.empty, evictCalls = [(1, 10), (2, 20), (3, 30), (0, 0)]\<rparr>"

definition lruE :: "(int, int) LRU" where
  "lruE = \<lparr>size_cap = 2, evictList = [(1, 10)], rootUnlinked = False,
            items = [1 \<mapsto> 10], onEvict = True, itemTTL = 0,
            itemExpiries = [1 \<mapsto> 5], evictCalls = []\<rparr>"

definition lruR :: "(int, int) LRU" where
  "lruR = \<lparr>size_cap = 2, evictList = [], rootUnlinked = True,
            items = Map.empty, onEvict = True, itemTTL = 0,
            itemExpiries = Map.empty, evictCalls = [(1, 10), (0, 0)]\<rparr>"

definition lruS :: "(int, int) LRU" where
  "lruS = \<lparr>size_cap = 2, evictList = [(1, 10)], rootUnlinked = False,
            items = [1 \<mapsto> 10], onEvict = True, itemTTL = 0,
            itemExpiries = [1 \<mapsto> 100], evictCalls = []\<rparr>"

text \<open>
  \<open>lruF0\<close> is what \<open>NewLRUWithEvictTTL2 2 True 5 True\<close> returns (default TTL 5, the flag
  \<open>expiryBasedEvict\<close> set); \<open>lruF\<close> is \<open>lruF0\<close> after \<open>Add(1, 10)\<close> at instant 1,
  \<open>Add(2, 20)\<close> at instant 3 and \<open>Get(1)\<close> at instant 4: key 1 (expiry 6) is at the front,
  key 2 (expiry 8) at the back. At instant 7 key 1 has expired and key 2 has not.
\<close>

definition lruF0 :: "(int, int) LRU2" where
  "lruF0 = \<lparr>size_cap = 2, evictList = [], rootUnlinked = False, items = Map.empty,
             onEvict = True, itemTTL = 5, itemExpiries = Map.empty, evictCalls = [],
             expiryBasedEvict = True\<rparr>"

definition lruF :: "(int, int) LRU2" where
  "lruF = \<lparr>size_cap = 2, evictList = [(1, 10), (2, 20)], rootUnlinked = False,
            items = [1 \<mapsto> 10, 2 \<mapsto> 20], onEvict = True, itemTTL = 5,
            itemExpiries = [1 \<mapsto> 6, 2 \<mapsto> 8], evictCalls = [],
            expiryBasedEvict = True\<rparr>"

section \<open>Basic facts\<close>

lemma removeElement_fields:
  "evictList (removeElement c e) = remove_node (fst e) (evictList c)"
  "items (removeElement c e) = (items c)(fst e := None)"
  "itemExpiries (removeElement c e) = (itemExpiries c)(fst e := None)"
  "rootUnlinked (removeElement c e) = rootUnlinked c"
  "size_cap (removeElement c e) = size_cap c"
  "itemTTL (removeElement c e) = itemTTL c"
  "onEvict (removeElement c e) = onEvict c"
  "evictCalls (removeElement c e) = (if onEvict c then evictCalls c @ [e] else evictCalls c)"
  by (simp_all add: removeElement_def fire_def)

lemma removeElement_flag:
  "expiryBasedEvict (removeElement c e) = expiryBasedEvict c"
  by (simp add: removeElement_def fire_def)

lemma map_of_remove_node:
  "map_of (remove_node k l) = (map_of l)(k := None)"
  by (induction l) (auto simp: remove_node_def)

lemma distinct_remove_node:
  "distinct (map fst l) \<Longrightarrow> distinct (map fst (remove_node k l))"
  by (simp add: remove_node_def distinct_map_filter)

lemma well_formed_removeElement: "well_formed c \<Longrightarrow> well_formed (removeElement c e)"
  by (simp add: well_formed_def removeElement_fields map_of_remove_node distinct_remove_node)

lemma length_remove_node_le: "length (remove_node k l) \<le> length l"
  by (simp add: remove_node_def)

lemma length_remove_node_distinct:
  "distinct (map fst l) \<Longrightarrow> e \<in> set l \<Longrightarrow> Suc (length (remove_node (fst e) l)) = length l"
proof (induction l)
  case Nil
  then show ?case by simp
next
  case (Cons a l)
  show ?case
  proof (cases "e = a")
    case True
    have "filter (\<lambda>x. fst x \<noteq> fst a) l = l"
      using Cons.prems(1) by (auto simp: filter_id_conv rev_image_eqI)
    with True show ?thesis by (simp add: remove_node_def)
  next
    case False
    with Cons.prems have "e \<in> set l" and "fst a \<noteq> fst e"
      by (auto simp: rev_image_eqI)
    with Cons show ?thesis by (simp add: remove_node_def)
  qed
qed

lemma length_remove_node_less:
  "e \<in> set l \<Longrightarrow> length (remove_node (fst e) l) < length l"
  by (auto simp: remove_node_def intro!: length_filter_less)

lemma KeyHasExpired_removeElement:
  "KeyHasExpired (removeElement c e) now k = (k \<noteq> fst e \<and> KeyHasExpired c now k)"
  by (simp add: KeyHasExpired_def removeElement_fields)

lemma Keys_loop_total:
  "i + length es \<le> length keys \<Longrightarrow>
   \<exists>keys'. Keys_loop c now es keys i =
        Some (keys', i + length (filter (\<lambda>e. \<not> KeyHasExpired c now (fst e)) es))
      \<and> length keys' = length keys
      \<and> take (i + length (filter (\<lambda>e. \<not> KeyHasExpired c now (fst e)) es)) keys'
          = take i keys @ map fst (filter (\<lambda>e. \<not> KeyHasExpired c now (fst e)) es)"
proof (induction es arbitrary: keys i)
  case Nil
  then show ?case by simp
next
  case (Cons e es)
  show ?case
  proof (cases "KeyHasExpired c now (fst e)")
    case True
    with Cons.IH [of i keys] Cons.prems show ?thesis by simp
  next
    case False
    from Cons.prems have lt: "i < length keys" by simp
    from Cons.prems have "Suc i + length es \<le> length (keys[i := fst e])" by simp
    from Cons.IH [OF this] obtain keys' where
      k: "Keys_loop c now es (keys[i := fst e]) (Suc i) =
            Some (keys', Suc i + length (filter (\<lambda>e. \<not> KeyHasExpired c now (fst e)) es))"
      and l: "length keys' = length (keys[i := fst e])"
      and t: "take (Suc i + length (filter (\<lambda>e. \<not> KeyHasExpired c now (fst e)) es)) keys'
          = take (Suc i) (keys[i := fst e]) @ map fst (filter (\<lambda>e. \<not> KeyHasExpired c now (fst e)) es)"
      by blast
    have "take (Suc i) (keys[i := fst e]) = take i keys @ [fst e]"
      using lt by (simp add: take_Suc_conv_app_nth)
    with False lt k l t show ?thesis by simp
  qed
qed

lemma list_len_linked: "\<not> rootUnlinked c \<Longrightarrow> list_len c = int (length (evictList c))"
  by (simp add: list_len_def)

lemma lazyInit_linked: "\<not> rootUnlinked c \<Longrightarrow> lazyInit c = c"
  by (simp add: lazyInit_def)

lemma Keys_eq:
  assumes u: "\<not> rootUnlinked c"
  shows "Keys c now = Some (map fst (filter (\<lambda>e. \<not> KeyHasExpired c now (fst e)) (rev (evictList c))))"
proof -
  let ?es = "rev (evictList c)"
  let ?ks = "replicate (nat (list_len c)) (0::'a)"
  have "0 + length ?es \<le> length ?ks" by (simp add: list_len_linked [OF u])
  from Keys_loop_total [OF this, of c now] obtain keys' where
    k: "Keys_loop c now ?es ?ks 0 = Some (keys', length (filter (\<lambda>e. \<not> KeyHasExpired c now (fst e)) ?es))"
    and l: "length keys' = length ?ks"
    and t: "take (length (filter (\<lambda>e. \<not> KeyHasExpired c now (fst e)) ?es)) keys'
          = map fst (filter (\<lambda>e. \<not> KeyHasExpired c now (fst e)) ?es)"
    by auto
  have "length (filter (\<lambda>e. \<not> KeyHasExpired c now (fst e)) ?es) \<le> length keys'"
    using l length_filter_le [of _ ?es] by (simp add: list_len_linked [OF u])
  with k t show ?thesis by (simp add: Keys_def list_len_linked [OF u])
qed

lemma Len_eq:
  "\<not> rootUnlinked c \<Longrightarrow>
     Len c now = Some (length (filter (\<lambda>e. \<not> KeyHasExpired c now (fst e)) (evictList c)))"
  by (simp add: Len_def Keys_eq flip: rev_filter)

lemma Keys_unlinked:
  "rootUnlinked c \<Longrightarrow> evictList c = [] \<Longrightarrow> Keys c now = None \<and> Len c now = None"
  by (simp add: Keys_def Len_def list_len_def)

lemma find_Some_set: "find P xs = Some x \<Longrightarrow> x \<in> set xs \<and> P x"
  by (induction xs) (auto split: if_splits)

lemma findExpired_Some:
  "findExpired c now = Some ent \<Longrightarrow> ent \<in> set (evictList c) \<and> KeyHasExpired c now (fst ent)"
  using find_Some_set [of "\<lambda>ent. KeyHasExpired c now (fst ent)" "rev (evictList c)" ent]
  by (simp add: findExpired_def)

lemma findExpired_None:
  "(findExpired c now = None) = (list_all (\<lambda>e. \<not> KeyHasExpired c now (fst e)) (evictList c))"
  by (auto simp: findExpired_def find_None_iff list_all_iff)

lemma find_map_of:
  "map_of l k = Some v \<Longrightarrow> find (\<lambda>e. fst e = k) l = Some (k, v)"
  by (induction l) (auto split: if_splits)

lemma set_value_front:
  "set_value k v ((k, old) # remove_node k l) = (k, v) # remove_node k l"
  by (auto simp: set_value_def remove_node_def intro!: map_idI)

lemma well_formed_not_resident:
  "well_formed c \<Longrightarrow> items c k = None \<Longrightarrow> k \<notin> fst ` set (evictList c)"
  by (simp add: well_formed_def map_of_eq_None_iff)

lemma well_formed_resident:
  "well_formed c \<Longrightarrow> items c k = Some v \<Longrightarrow> (k, v) \<in> set (evictList c)"
  by (auto simp: well_formed_def dest: map_of_SomeD)

lemma AddWithExp_existing:
  assumes w: "well_formed c" and r: "items c key = Some old"
  shows "AddWithExp c now key val expiry =
    Some (c\<lparr>evictList := (key, val) # remove_node key (evictList c),
       items := (items c)(key \<mapsto> val),
       evictCalls := (if onEvict c then evictCalls c @ [(key, old)] else evictCalls c)\<rparr>, False)"
proof -
  have "find (\<lambda>e. fst e = key) (evictList c) = Some (key, old)"
    using w r by (simp add: well_formed_def find_map_of)
  then have m: "moveToFront key (evictList c) = (key, old) # remove_node key (evictList c)"
    by (simp add: moveToFront_def remove_node_def)
  show ?thesis
    using r by (simp add: AddWithExp_def m fire_def set_value_front)
qed

lemma Add2_existing:
  assumes w: "well_formed c" and r: "items c key = Some old"
  shows "Add2 c now key val =
    (c\<lparr>evictList := (key, val) # remove_node key (evictList c),
       items := (items c)(key \<mapsto> val),
       evictCalls := (if onEvict c then evictCalls c @ [(key, old)] else evictCalls c)\<rparr>, False)"
proof -
  have "find (\<lambda>e. fst e = key) (evictList c) = Some (key, old)"
    using w r by (simp add: well_formed_def find_map_of)
  then have m: "moveToFront key (evictList c) = (key, old) # remove_node key (evictList c)"
    by (simp add: moveToFront_def remove_node_def)
  show ?thesis
    using r by (simp add: Add2_def m fire_def set_value_front)
qed

lemma well_formed_front:
  assumes w: "well_formed c"
  shows "well_formed (c\<lparr>evictList := (key, val) # remove_node key (evictList c),
       items := (items c)(key \<mapsto> val), evictCalls := x\<rparr>)"
proof -
  have "key \<notin> fst ` set (remove_node key (evictList c))"
    by (auto simp: remove_node_def)
  with w show ?thesis
    by (simp add: well_formed_def distinct_remove_node map_of_remove_node)
qed


subsection \<open>The engine of part_002: insertions keep the capacity\<close>

lemma well_formed_pushed: "well_formed c \<Longrightarrow> items c key = None \<Longrightarrow> well_formed (pushed c key val ex)"
  using well_formed_not_resident [of c key] by (simp add: well_formed_def pushed_def)

lemma Add2_new:
  assumes r: "items c key = None" and u: "\<not> rootUnlinked c"
  shows "Add2 c now key val =
    (let c2 = pushed c key val
          (if itemTTL c > 0 then (itemExpiries c)(key \<mapsto> now + itemTTL c)
           else itemExpiries c)
     in if int (length (evictList c)) + 1 > size_cap c then (removeOldest2 c2 now, True)
        else (c2, False))"
  using r u by (simp add: Add2_def pushed_def pushFront_def Let_def lazyInit_def list_len_def)

lemma removeOldest2_one:
  assumes ne: "evictList c \<noteq> []"
  shows "\<exists>ent \<in> set (evictList c). removeOldest2 c now = removeElement c ent"
proof (cases "expiryBasedEvict c \<and> findExpired c now \<noteq> None")
  case True
  then obtain ent where f: "findExpired c now = Some ent" by auto
  with True findExpired_Some [OF f] show ?thesis
    by (auto simp: removeOldest2_def)
next
  case False
  then have "removeOldest2 c now = removeElement c (last (evictList c))"
    using ne by (auto simp: removeOldest2_def back_node_def split: option.splits)
  with ne show ?thesis by auto
qed

lemma removeOldest2_wf: "well_formed c \<Longrightarrow> well_formed (removeOldest2 c now)"
  by (cases "evictList c = []")
     (use removeOldest2_one [of c now] in
       \<open>auto simp: well_formed_removeElement removeOldest2_def back_node_def findExpired_def\<close>)

lemma removeOldest2_fields:
  "size_cap (removeOldest2 c now) = size_cap c"
  "rootUnlinked (removeOldest2 c now) = rootUnlinked c"
  "itemTTL (removeOldest2 c now) = itemTTL c"
  "onEvict (removeOldest2 c now) = onEvict c"
  "expiryBasedEvict (removeOldest2 c now) = expiryBasedEvict c"
  by (simp_all add: removeOldest2_def removeElement_fields removeElement_flag split: option.splits)

lemma removeOldest2_length:
  assumes w: "well_formed c" and ne: "evictList c \<noteq> []"
  shows "Suc (length (evictList (removeOldest2 c now))) = length (evictList c)"
proof -
  from removeOldest2_one [OF ne, of now] obtain ent where
    e: "ent \<in> set (evictList c)" and r: "removeOldest2 c now = removeElement c ent" by blast
  from w have "distinct (map fst (evictList c))" by (simp add: well_formed_def)
  from length_remove_node_distinct [OF this e] r show ?thesis
    by (simp add: removeElement_fields)
qed

lemma well_formed_Add2:
  assumes w: "well_formed c" and u: "\<not> rootUnlinked c"
  shows "well_formed (fst (Add2 c now key val))"
proof (cases "items c key")
  case None
  with w u show ?thesis
    by (simp add: Add2_new Let_def well_formed_pushed removeOldest2_wf)
next
  case (Some old)
  with w show ?thesis by (simp add: Add2_existing well_formed_front)
qed

lemma size_cap_Add2: "size_cap (fst (Add2 c now key val)) = size_cap c"
  by (cases "items c key")
     (simp_all add: Add2_def Let_def fire_def removeOldest2_fields lazyInit_def)

lemma rootUnlinked_Add2:
  assumes w: "well_formed c" and u: "\<not> rootUnlinked c"
  shows "\<not> rootUnlinked (fst (Add2 c now key val))"
proof (cases "items c key")
  case None
  with u show ?thesis
    by (simp add: Add2_new Let_def removeOldest2_fields) (simp add: pushed_def)
next
  case (Some old)
  with w u show ?thesis by (simp add: Add2_existing)
qed

lemma length_Add2:
  assumes w: "well_formed c" and u: "\<not> rootUnlinked c"
    and b: "int (length (evictList c)) \<le> size_cap c"
  shows "int (length (evictList (fst (Add2 c now key val)))) \<le> size_cap c"
proof (cases "items c key")
  case None
  define ex where "ex = (if itemTTL c > 0 then (itemExpiries c)(key \<mapsto> now + itemTTL c)
           else itemExpiries c)"
  define c2 where "c2 = pushed c key val ex"
  have w2: "well_formed c2" unfolding c2_def using w None by (rule well_formed_pushed)
  have len2: "length (evictList c2) = Suc (length (evictList c))"
    by (simp add: c2_def pushed_def)
  then have ne: "evictList c2 \<noteq> []" by auto
  have "Suc (length (evictList (removeOldest2 c2 now))) = length (evictList c2)"
    using w2 ne by (rule removeOldest2_length)
  then have "length (evictList (removeOldest2 c2 now)) = length (evictList c)"
    by (simp add: len2)
  with None u b len2 show ?thesis
    by (simp add: Add2_new Let_def c2_def [symmetric] ex_def [symmetric])
next
  case (Some old)
  have "Suc (length (remove_node (fst (key, old)) (evictList c))) = length (evictList c)"
    using w well_formed_resident [OF w Some]
    by (intro length_remove_node_distinct) (simp_all add: well_formed_def)
  with Some w b show ?thesis by (simp add: Add2_existing)
qed

lemma add_step2_inv:
  assumes "well_formed c" and "\<not> rootUnlinked c"
    and "int (length (evictList c)) \<le> size_cap c"
  shows "well_formed (add_step2 c call) \<and> \<not> rootUnlinked (add_step2 c call)
         \<and> int (length (evictList (add_step2 c call))) \<le> size_cap c
         \<and> size_cap (add_step2 c call) = size_cap c"
  using assms
  by (cases call)
     (simp_all add: well_formed_Add2 size_cap_Add2 length_Add2 rootUnlinked_Add2)

lemma run_adds2_inv:
  assumes "well_formed c" and "\<not> rootUnlinked c"
    and "int (length (evictList c)) \<le> size_cap c"
  shows "well_formed (run_adds2 c calls) \<and> \<not> rootUnlinked (run_adds2 c calls)
         \<and> int (length (evictList (run_adds2 c calls))) \<le> size_cap c
         \<and> size_cap (run_adds2 c calls) = size_cap c"
  using assms
proof (induction calls arbitrary: c)
  case Nil
  then show ?case by (simp add: run_adds2_def)
next
  case (Cons call calls)
  from add_step2_inv [OF Cons.prems, of call]
  have s: "well_formed (add_step2 c call)" "\<not> rootUnlinked (add_step2 c call)"
    "int (length (evictList (add_step2 c call))) \<le> size_cap (add_step2 c call)"
    "size_cap (add_step2 c call) = size_cap c" by simp_all
  from Cons.IH [OF s(1) s(2) s(3)] s(4) show ?case by (simp add: run_adds2_def)
qed

lemma New2_inv:
  "NewLRUWithEvictTTL2 n cb ttl ebe = Inr c0 \<Longrightarrow>
     well_formed c0 \<and> \<not> rootUnlinked c0 \<and> int (length (evictList c0)) \<le> size_cap c0
     \<and> size_cap c0 = n"
  by (auto simp: NewLRUWithEvictTTL2_def well_formed_def split: if_splits)

lemma Len_le_length:
  "\<not> rootUnlinked c \<Longrightarrow> \<exists>m. Len c now = Some m \<and> m \<le> length (evictList c)"
  by (simp add: Len_eq)

text \<open>
  On the engine of part_002 the count that \<open>Len\<close> reports never exceeds the capacity,
  after any sequence of \<open>Add\<close> calls on a constructed cache.
\<close>

lemma Len_run_adds2:
  assumes "NewLRUWithEvictTTL2 n cb ttl ebe = Inr c0"
  shows "\<exists>m. Len (run_adds2 c0 calls) now = Some m \<and> int m \<le> n"
proof -
  from New2_inv [OF assms] have i: "well_formed c0" "\<not> rootUnlinked c0"
    "int (length (evictList c0)) \<le> size_cap c0"
    and n: "size_cap c0 = n" by simp_all
  from run_adds2_inv [OF i, of calls] n
  have "\<not> rootUnlinked (run_adds2 c0 calls)"
    "int (length (evictList (run_adds2 c0 calls))) \<le> n" by simp_all
  with Len_le_length [of "run_adds2 c0 calls" now] show ?thesis by auto
qed

text \<open>
  On the engine of part_002 an insertion that makes the list longer than the capacity
  returns true and removes exactly one node of the list.
\<close>

lemma Add2_overflow:
  assumes r: "items c key = None" and u: "\<not> rootUnlinked c"
    and o: "int (length (evictList c)) + 1 > size_cap c"
  shows "\<exists>ent. ent \<in> set ((key, val) # evictList c) \<and>
           Add2 c t key val =
             (removeElement (pushed c key val
                (if itemTTL c > 0 then (itemExpiries c)(key \<mapsto> t + itemTTL c)
                 else itemExpiries c)) ent, True)"
proof -
  define ex where "ex = (if itemTTL c > 0 then (itemExpiries c)(key \<mapsto> t + itemTTL c)
           else itemExpiries c)"
  define c2 where "c2 = pushed c key val ex"
  have a: "Add2 c t key val = (removeOldest2 c2 t, True)"
    using r u o by (simp add: Add2_new Let_def c2_def ex_def)
  have l2: "evictList c2 = (key, val) # evictList c" by (simp add: c2_def pushed_def)
  then have "evictList c2 \<noteq> []" by simp
  from removeOldest2_one [OF this, of t] obtain ent where
    "ent \<in> set (evictList c2)" "removeOldest2 c2 t = removeElement c2 ent" by blast
  with a l2 have "ent \<in> set ((key, val) # evictList c) \<and>
      Add2 c t key val = (removeElement c2 ent, True)" by simp
  then show ?thesis unfolding c2_def ex_def by blast
qed

subsection \<open>The concrete caches\<close>

lemma New_lru0: "NewLRUWithEvictTTL 2 True 0 = Inr lru0"
  by (simp add: NewLRUWithEvictTTL_def lru0_def)

lemma New_lruF0: "NewLRUWithEvictTTL2 2 True 5 True = Inr lruF0"
  by (simp add: NewLRUWithEvictTTL2_def lruF0_def)

lemma lruA_built: "run_adds lru0 [AddWithExpCall 1 1 10 5, AddCall 1 2 20] = Some lruA"
  by (simp add: lruA_def lru0_def Add_def AddWithExp_def pushFront_def lazyInit_def list_len_def)

lemma lruB_built:
  "run_adds lru0 [AddWithExpCall 1 1 10 5, AddWithExpCall 1 2 20 6] = Some lruB"
  by (simp add: lruB_def lru0_def Add_def AddWithExp_def pushFront_def lazyInit_def list_len_def)

lemma lruE_built: "run_adds lru0 [AddWithExpCall 1 1 10 5] = Some lruE"
  by (simp add: lruE_def lru0_def Add_def AddWithExp_def pushFront_def lazyInit_def list_len_def)

lemma lruS_built: "run_adds lru0 [AddWithExpCall 1 1 10 100] = Some lruS"
  by (simp add: lruS_def lru0_def Add_def AddWithExp_def pushFront_def lazyInit_def list_len_def)

lemma lruF_built: "fst (Get2 (run_adds2 lruF0 [(1, 1, 10), (3, 2, 20)]) 4 1) = lruF"
  by (simp add: lruF_def lruF0_def run_adds2_def Add2_def Get2_def pushFront_def
      KeyHasExpired_def moveToFront_def lazyInit_def list_len_def)

lemma well_formed_lruA: "well_formed lruA"
  by (simp add: lruA_def well_formed_def)

lemma well_formed_lruS: "well_formed lruS"
  by (simp add: lruS_def well_formed_def)

lemma well_formed_lruE: "well_formed lruE"
  by (simp add: lruE_def well_formed_def)

lemma well_formed_lruF: "well_formed lruF"
  by (simp add: lruF_def well_formed_def fun_eq_iff)

lemma lruA_key1: "items lruA 1 = Some 10" "KeyHasExpired lruA 10 1" "itemExpiries lruA 1 = Some 5"
  by (simp_all add: lruA_def KeyHasExpired_def)

lemma lruF_key1: "items lruF 1 = Some 10" "KeyHasExpired lruF 7 1" "itemExpiries lruF 1 = Some 6"
  by (simp_all add: lruF_def KeyHasExpired_def)

lemma run_adds_append:
  "run_adds c (xs @ ys) = (case run_adds c xs of None \<Rightarrow> None | Some c' \<Rightarrow> run_adds c' ys)"
  by (induction xs arbitrary: c) (simp_all split: option.splits)

lemmas oldest_eval = Add_def AddWithExp_def pushFront_def lazyInit_def list_len_def
  removeOldest_def getOldest_def getOldest_root.simps removeNode_def removeRoot_def
  removeElement_def fire_def remove_node_def KeyHasExpired_def findExpired_def back_node_def

lemma AddWithExp_lruB: "AddWithExp lruB 10 3 30 7 = Some (lruX, True)"
  by (simp add: oldest_eval lruB_def lruX_def fun_eq_iff)

lemma lruX_built:
  "run_adds lru0 [AddWithExpCall 1 1 10 5, AddWithExpCall 1 2 20 6, AddWithExpCall 10 3 30 7]
     = Some lruX"
proof -
  have "run_adds lru0
          ([AddWithExpCall 1 1 10 5, AddWithExpCall 1 2 20 6] @ [AddWithExpCall 10 3 30 7])
      = run_adds lruB [AddWithExpCall 10 3 30 7]"
    by (simp only: run_adds_append lruB_built option.case)
  moreover have "run_adds lruB [AddWithExpCall 10 3 30 7] = Some lruX"
    by (simp add: AddWithExp_lruB)
  ultimately show ?thesis by simp
qed

lemma RemoveOldest_lruE: "RemoveOldest lruE 10 = Some (lruR, 0, 0, True)"
  by (simp add: RemoveOldest_def oldest_eval lruE_def lruR_def fun_eq_iff)

section \<open>C1: the bound on \<open>Len\<close> and the eviction at overflow\<close>

text \<open>
  In the engine of part_002 the claim holds: after every sequence of \<open>Add\<close> on a
  constructed cache \<open>Len\<close> returns at most the capacity (\<open>Len_run_adds2\<close>), and an \<open>Add\<close>
  of a new key that makes the list longer than the capacity removes exactly one entry and
  returns true (\<open>Add2_overflow\<close>). The engine of part_001 evicts through \<open>getOldest(true)\<close>.
\<close>

lemma Len_lruA: "Len lruA 10 = Some 1"
  by (simp add: Len_eq lruA_def KeyHasExpired_def)

text \<open>
  C1 at two failing inputs of part_001, both on a cache built with capacity 2 and no
  default TTL.
  \<^item> \<open>lruA\<close> holds the keys 1 (expiry 5) and 2. \<open>Add(3, 30)\<close> at instant 10 is the insertion
    of a new key that makes the list longer than the capacity; it returns true, but two
    entries are evicted, not one: the callback is called for key 1 and for key 2, and
    only key 3 is left.
  \<^item> \<open>lruB\<close> holds the keys 1 (expiry 5) and 2 (expiry 6). \<open>AddWithExp(3, 30, expiry 7)\<close> at
    instant 10 returns true and leaves \<open>lruX\<close>: the three entries are removed, the callback
    is called a fourth time with the zero key and the zero value, the sentinel of the
    list is unlinked and the list's length counter is -1. \<open>Len\<close> on that cache does not
    return a count: it panics.
\<close>

theorem C1_overflow_evicts_more_than_one_entry:
  "NewLRUWithEvictTTL 2 True 0 = Inr lru0
   \<and> run_adds lru0 [AddWithExpCall 1 1 10 5, AddCall 1 2 20] = Some lruA
   \<and> size_cap lruA = 2 \<and> evictList lruA = [(2, 20), (1, 10)] \<and> items lruA 3 = None
   \<and> Add lruA 10 3 30 =
       Some (lruA\<lparr>evictList := [(3, 30)], items := [3 \<mapsto> 30], itemExpiries := Map.empty,
                  evictCalls := [(1, 10), (2, 20)]\<rparr>, True)
   \<and> run_adds lru0 [AddWithExpCall 1 1 10 5, AddWithExpCall 1 2 20 6] = Some lruB
   \<and> size_cap lruB = 2 \<and> evictList lruB = [(2, 20), (1, 10)] \<and> items lruB 3 = None
   \<and> AddWithExp lruB 10 3 30 7 = Some (lruX, True)
   \<and> evictList lruX = [] \<and> rootUnlinked lruX \<and> list_len lruX = - 1
   \<and> evictCalls lruX = [(1, 10), (2, 20), (3, 30), (0, 0)]
   \<and> Len lruX 10 = None"
proof -
  have a: "Add lruA 10 3 30 =
       Some (lruA\<lparr>evictList := [(3, 30)], items := [3 \<mapsto> 30], itemExpiries := Map.empty,
                  evictCalls := [(1, 10), (2, 20)]\<rparr>, True)"
    by (simp add: oldest_eval lruA_def fun_eq_iff)
  have b: "size_cap lruA = 2" "evictList lruA = [(2, 20), (1, 10)]" "items lruA 3 = None"
    "size_cap lruB = 2" "evictList lruB = [(2, 20), (1, 10)]" "items lruB 3 = None"
    by (simp_all add: lruA_def lruB_def)
  have x: "evictList lruX = []" "rootUnlinked lruX" "list_len lruX = - 1"
    "evictCalls lruX = [(1, 10), (2, 20), (3, 30), (0, 0)]" "Len lruX 10 = None"
    by (simp_all add: lruX_def list_len_def Len_def Keys_def)
  show ?thesis
    by (intro conjI New_lru0 lruA_built lruB_built AddWithExp_lruB a b x)
qed

section \<open>C2: \<open>Get\<close> on an expired entry\<close>

text \<open>
  What \<open>Get\<close> does, by the state of the key: resident and unexpired, the node goes to
  the front and the value is returned; resident and expired, or absent, nothing changes
  and found = false.
\<close>

lemma moveToFront_resident:
  "well_formed c \<Longrightarrow> items c key = Some v \<Longrightarrow>
     moveToFront key (evictList c) = (key, v) # remove_node key (evictList c)"
  by (simp add: moveToFront_def remove_node_def well_formed_def find_map_of)

lemma Get_unexpired:
  "well_formed c \<Longrightarrow> items c key = Some v \<Longrightarrow> \<not> KeyHasExpired c now key \<Longrightarrow>
     Get c now key = (c\<lparr>evictList := (key, v) # remove_node key (evictList c)\<rparr>, v, True)"
  by (simp add: Get_def moveToFront_resident)

lemma Get_expired:
  "items c key = Some v \<Longrightarrow> KeyHasExpired c now key \<Longrightarrow> Get c now key = (c, 0, False)"
  by (simp add: Get_def)

lemma Get_absent: "items c key = None \<Longrightarrow> Get c now key = (c, 0, False)"
  by (simp add: Get_def)

lemma Get2_unexpired:
  "well_formed c \<Longrightarrow> items c key = Some v \<Longrightarrow> \<not> KeyHasExpired c now key \<Longrightarrow>
     Get2 c now key = (c\<lparr>evictList := (key, v) # remove_node key (evictList c)\<rparr>, v, True)"
  by (simp add: Get2_def moveToFront_resident)

lemma Get2_expired:
  "items c key = Some v \<Longrightarrow> KeyHasExpired c now key \<Longrightarrow> Get2 c now key = (c, 0, False)"
  by (simp add: Get2_def)

lemma Get2_absent: "items c key = None \<Longrightarrow> Get2 c now key = (c, 0, False)"
  by (simp add: Get2_def)


text \<open>
  C2 at a failing input. In \<open>lruA\<close> key 1 is resident with value 10 and expiry 5; at
  instant 10 it has expired. \<open>Get(1)\<close> returns found = false, as C2 says, but the entry
  is not removed: the cache is returned unchanged, key 1 still in the list and in the
  key index. In part_001 the call \<open>c.removeElement(ent)\<close> stands inside the branch
  guarded by \<open>!c.KeyHasExpired(key)\<close>, after a second test of the same condition, and
  is never reached; \<open>Get\<close> of part_002 has no removal at all (same result on \<open>lruF\<close> at
  instant 7).
\<close>

theorem C2_Get_keeps_expired_entry:
  "items lruA 1 = Some 10 \<and> itemExpiries lruA 1 = Some 5 \<and> KeyHasExpired lruA 10 1
   \<and> Get lruA 10 1 = (lruA, 0, False)
   \<and> evictList (fst (Get lruA 10 1)) = [(2, 20), (1, 10)]
   \<and> items (fst (Get lruA 10 1)) 1 = Some 10
   \<and> items lruF 1 = Some 10 \<and> itemExpiries lruF 1 = Some 6 \<and> KeyHasExpired lruF 7 1
   \<and> Get2 lruF 7 1 = (lruF, 0, False)
   \<and> evictList (fst (Get2 lruF 7 1)) = [(1, 10), (2, 20)]"
proof -
  have a: "Get lruA 10 1 = (lruA, 0, False)"
    by (simp add: Get_def lruA_key1)
  have f: "Get2 lruF 7 1 = (lruF, 0, False)"
    by (simp add: Get2_def lruF_key1)
  have "evictList lruA = [(2, 20), (1, 10)]" "evictList lruF = [(1, 10), (2, 20)]"
    by (simp_all add: lruA_def lruF_def)
  with a f show ?thesis by (simp add: lruA_key1 lruF_key1)
qed

section \<open>C3: \<open>MoveItem\<close> and the expiry\<close>

text \<open>
  \<open>MoveItem\<close> on a key resident and unexpired in the source: the destination receives
  \<open>AddWithExp\<close> with the zero time as expiry, whatever the source recorded.
\<close>

lemma MoveItem_unexpired:
  assumes r: "items src key = Some v" and u: "\<not> KeyHasExpired src now key"
  shows "MoveItem key dest src now =
     map_option (\<lambda>r. (fst r, removeElement src (key, v), v, True))
       (AddWithExp dest now key v 0)"
  using r u
  by (simp add: MoveItem_def Peek_def Remove_def ExpiryForKey_def removeElement_fields)

text \<open>
  C3 at a failing input. In \<open>lruS\<close> key 1 is resident with value 10 and expiry 100; at
  instant 10 it has not expired. \<open>MoveItem(1, lru0, lruS)\<close> returns the value 10 with
  moved = true, key 1 leaves the source and is resident in the destination with value
  10, as C3 says, but the destination records no expiry for it: it is \<open>lru0\<close> with
  the new node and the expiry map of \<open>lru0\<close>, and \<open>ExpiryForKey\<close> on it is the zero
  time, not 100. \<open>src.ExpiryForKey(key)\<close> is read after
  \<open>src.Remove(key)\<close> has deleted the expiry record.
\<close>

theorem C3_MoveItem_loses_expiry:
  "items lruS 1 = Some 10 \<and> \<not> KeyHasExpired lruS 10 1 \<and> ExpiryForKey lruS 1 = 100
   \<and> MoveItem 1 lru0 lruS 10 =
       Some (lru0\<lparr>evictList := [(1, 10)], items := [1 \<mapsto> 10]\<rparr>,
             lruS\<lparr>evictList := [], items := Map.empty, itemExpiries := Map.empty,
                  evictCalls := [(1, 10)]\<rparr>,
             10, True)
   \<and> items (lru0\<lparr>evictList := [(1, 10)], items := [1 \<mapsto> 10]\<rparr>) 1 = Some 10
   \<and> itemExpiries (lru0\<lparr>evictList := [(1, 10)], items := [1 \<mapsto> 10]\<rparr>) 1 = None
   \<and> ExpiryForKey (lru0\<lparr>evictList := [(1, 10)], items := [1 \<mapsto> 10]\<rparr>) 1 = 0"
proof -
  have m: "MoveItem 1 lru0 lruS 10 =
       Some (lru0\<lparr>evictList := [(1, 10)], items := [1 \<mapsto> 10]\<rparr>,
             lruS\<lparr>evictList := [], items := Map.empty, itemExpiries := Map.empty,
                  evictCalls := [(1, 10)]\<rparr>,
             10, True)"
    by (simp add: MoveItem_def Peek_def Remove_def AddWithExp_def ExpiryForKey_def
        KeyHasExpired_def removeElement_def fire_def remove_node_def pushFront_def
        lazyInit_def list_len_def lruS_def lru0_def)
  show ?thesis
    by (simp add: m) (simp add: lruS_def lru0_def KeyHasExpired_def ExpiryForKey_def)
qed

section \<open>C4: \<open>RemoveOldest\<close> and the eviction policy\<close>

lemma find_rev_Some:
  "find P (rev l) = Some e \<Longrightarrow> \<exists>xs ys. l = xs @ e # ys \<and> P e \<and> list_all (\<lambda>y. \<not> P y) ys"
proof (induction l rule: rev_induct)
  case Nil
  then show ?case by simp
next
  case (snoc x l)
  show ?case
  proof (cases "P x")
    case True
    with snoc.prems have "e = x" by simp
    with True have "l @ [x] = l @ e # [] \<and> P e \<and> list_all (\<lambda>y. \<not> P y) []" by simp
    then show ?thesis by blast
  next
    case False
    with snoc.prems have "find P (rev l) = Some e" by simp
    from snoc.IH [OF this] obtain xs ys where
      "l = xs @ e # ys" "P e" "list_all (\<lambda>y. \<not> P y) ys" by blast
    with False have "l @ [x] = xs @ e # (ys @ [x]) \<and> P e \<and> list_all (\<lambda>y. \<not> P y) (ys @ [x])"
      by simp
    then show ?thesis by blast
  qed
qed

lemma findExpired_first:
  "findExpired c now = Some ent \<Longrightarrow>
     \<exists>xs ys. evictList c = xs @ ent # ys \<and> KeyHasExpired c now (fst ent)
        \<and> list_all (\<lambda>e. \<not> KeyHasExpired c now (fst e)) ys"
  unfolding findExpired_def by (rule find_rev_Some)

lemma RemoveOldest2_empty: "evictList d = [] \<Longrightarrow> RemoveOldest2 d now = (d, 0, 0, False)"
  by (simp add: RemoveOldest2_def back_node_def)

lemma RemoveOldest2_state:
  "evictList d \<noteq> [] \<Longrightarrow> fst (RemoveOldest2 d now) = removeElement d (last (evictList d))"
  by (simp add: RemoveOldest2_def back_node_def)

lemma RemoveOldest2_result:
  "evictList d \<noteq> [] \<Longrightarrow> \<not> KeyHasExpired d now 0 \<Longrightarrow>
     snd (RemoveOldest2 d now) = (fst (last (evictList d)), snd (last (evictList d)), True)"
  by (simp add: RemoveOldest2_def back_node_def)

lemma removeOldest2_expired:
  "expiryBasedEvict d \<Longrightarrow> findExpired d now = Some ent \<Longrightarrow>
     removeOldest2 d now = removeElement d ent"
  by (simp add: removeOldest2_def)

lemma removeOldest2_tail:
  "evictList d \<noteq> [] \<Longrightarrow> \<not> expiryBasedEvict d \<or> findExpired d now = None \<Longrightarrow>
     removeOldest2 d now = removeElement d (last (evictList d))"
  by (auto simp: removeOldest2_def back_node_def)

lemma removeOldest2_empty: "evictList d = [] \<Longrightarrow> removeOldest2 d now = d"
  by (simp add: removeOldest2_def back_node_def findExpired_def)


text \<open>
  C4, as amended, on the engine of part_002. The public \<open>RemoveOldest\<close> does not
  consult the flag \<open>expiryBasedEvict\<close>: on a cache that is not empty it removes the least
  recently used entry, the back of the list, whether or not another entry has expired,
  and returns that entry's key and value with found = true (the test the code makes
  before, on the zero value of the key type, is taken to find no expired record). On
  an empty cache it returns found = false and changes nothing. The policy of capacity
  overflow is that of the internal \<open>removeOldest\<close>, used by \<open>Add\<close> and \<open>Resize\<close>: with
  the flag set it removes the first expired entry met from the back, and the back of the
  list when no entry has expired; with the flag clear it removes the back of the list.
\<close>

theorem C4_RemoveOldest2_removes_the_tail:
  "(evictList d = [] \<longrightarrow> RemoveOldest2 d now = (d, 0, 0, False))
   \<and> (evictList d \<noteq> [] \<longrightarrow>
        fst (RemoveOldest2 d now) = removeElement d (last (evictList d))
        \<and> (\<not> KeyHasExpired d now 0 \<longrightarrow>
              snd (RemoveOldest2 d now)
                = (fst (last (evictList d)), snd (last (evictList d)), True)))
   \<and> (expiryBasedEvict d \<and> findExpired d now = Some ent \<longrightarrow>
        removeOldest2 d now = removeElement d ent
        \<and> (\<exists>xs ys. evictList d = xs @ ent # ys \<and> KeyHasExpired d now (fst ent)
              \<and> list_all (\<lambda>e. \<not> KeyHasExpired d now (fst e)) ys))
   \<and> (evictList d \<noteq> [] \<and> (\<not> expiryBasedEvict d \<or> findExpired d now = None) \<longrightarrow>
        removeOldest2 d now = removeElement d (last (evictList d)))
   \<and> (findExpired d now = None)
        = list_all (\<lambda>e. \<not> KeyHasExpired d now (fst e)) (evictList d)
   \<and> (evictList d = [] \<longrightarrow> removeOldest2 d now = d)"
  using RemoveOldest2_empty [of d now] RemoveOldest2_state [of d now]
    RemoveOldest2_result [of d now] removeOldest2_expired [of d now ent]
    findExpired_first [of d now ent] removeOldest2_tail [of d now]
    findExpired_None [of d now] removeOldest2_empty [of d now]
  by blast


text \<open>
  The theorem of C4 at the empty cache \<open>lruF0\<close> and at \<open>lruF\<close>, at instant 7 (key 1
  expired) and at instant 2 (no key expired).
\<close>

theorem C4_witness:
  "RemoveOldest2 lruF0 7 = (lruF0, 0, 0, False)
   \<and> evictList (fst (RemoveOldest2 lruF 7)) = [(1, 10)]
   \<and> snd (RemoveOldest2 lruF 7) = (2, 20, True)
   \<and> evictList (removeOldest2 lruF 7) = [(2, 20)]
   \<and> evictList (removeOldest2 lruF 2) = [(1, 10)]
   \<and> removeOldest2 lruF0 7 = lruF0"
proof -
  have f: "evictList lruF \<noteq> []" "last (evictList lruF) = (2, 20)" "\<not> KeyHasExpired lruF 7 0"
    "expiryBasedEvict lruF" "findExpired lruF 7 = Some (1, 10)" "findExpired lruF 2 = None"
    "remove_node 2 (evictList lruF) = [(1, 10)]" "remove_node 1 (evictList lruF) = [(2, 20)]"
    by (simp_all add: lruF_def KeyHasExpired_def findExpired_def remove_node_def)
  have z: "evictList lruF0 = []" by (simp add: lruF0_def)
  show ?thesis
    using C4_RemoveOldest2_removes_the_tail [of lruF0 7 "(1, 10)"]
      C4_RemoveOldest2_removes_the_tail [of lruF 7 "(1, 10)"]
      C4_RemoveOldest2_removes_the_tail [of lruF 2 "(1, 10)"] f z
    by (simp add: removeElement_fields)
qed


text \<open>
  C4 as stated fails on \<open>lruF\<close> at instant 7: the flag is set, key 1 at the front has
  expired and key 2 at the back has not. \<open>RemoveOldest\<close> removes key 2, the unexpired
  back of the list, and leaves the expired key 1; the overflow policy (\<open>removeOldest\<close>)
  removes key 1.
\<close>

theorem C4_counterexample:
  "expiryBasedEvict lruF
   \<and> evictList lruF = [(1, 10), (2, 20)]
   \<and> KeyHasExpired lruF 7 1 \<and> \<not> KeyHasExpired lruF 7 2
   \<and> findExpired lruF 7 = Some (1, 10)
   \<and> snd (RemoveOldest2 lruF 7) = (2, 20, True)
   \<and> evictList (fst (RemoveOldest2 lruF 7)) = [(1, 10)]
   \<and> evictList (removeOldest2 lruF 7) = [(2, 20)]"
  by (simp add: lruF_def KeyHasExpired_def findExpired_def RemoveOldest2_def removeOldest2_def
      back_node_def removeElement_def fire_def remove_node_def)

section \<open>C5: \<open>GetOldest\<close>\<close>









text \<open>
  When the only entry has expired, \<open>GetOldest\<close> of part_001 removes it and then reads the
  sentinel of the list, which \<open>ent.prev\<close> reaches at the front: it returns the zero key and
  the zero value with found = true. At \<open>lruE\<close> and instant 10:
\<close>

lemma GetOldest_lruE:
  "GetOldest lruE 10 =
     Some (lruE\<lparr>evictList := [], items := Map.empty, itemExpiries := Map.empty,
                evictCalls := [(1, 10)]\<rparr>, 0, 0, True)"
  by (simp add: GetOldest_def oldest_eval lruE_def fun_eq_iff)







section \<open>C6: \<open>Add\<close> on a key already present\<close>

lemma length_front:
  assumes w: "well_formed c" and r: "items c key = Some old"
  shows "length ((key, val) # remove_node key (evictList c)) = length (evictList c)"
  using length_remove_node_distinct [of "evictList c" "(key, old)"] w well_formed_resident [OF w r]
  by (simp add: well_formed_def)


text \<open>
  C6. When the key is already present (with the value \<open>old\<close>), \<open>AddWithExp\<close>, \<open>Add\<close>
  (which is \<open>AddWithExp\<close> with the zero time) and \<open>Add\<close> of part_002 move the node to the
  front of the list, the other entries keeping their order; call the callback, when one
  is set, with the key and the old value; store the new value; and return false. Nothing
  else changes: no entry is removed (the list is as long as before, the key index has
  the same keys) and the expiry records are as before.
\<close>

theorem C6_add_existing_key:
  "(well_formed c \<and> items c key = Some old \<longrightarrow>
      AddWithExp c now key val expiry =
        Some (c\<lparr>evictList := (key, val) # remove_node key (evictList c),
                items := (items c)(key \<mapsto> val),
                evictCalls :=
                  (if onEvict c then evictCalls c @ [(key, old)] else evictCalls c)\<rparr>,
              False)
      \<and> Add c now key val = AddWithExp c now key val 0
      \<and> map_option (\<lambda>r. length (evictList (fst r))) (AddWithExp c now key val expiry)
          = Some (length (evictList c))
      \<and> map_option (\<lambda>r. dom (items (fst r))) (AddWithExp c now key val expiry)
          = Some (dom (items c)))
   \<and> (well_formed d \<and> items d key = Some old \<longrightarrow>
      Add2 d now key val =
        (d\<lparr>evictList := (key, val) # remove_node key (evictList d),
           items := (items d)(key \<mapsto> val),
           evictCalls := (if onEvict d then evictCalls d @ [(key, old)] else evictCalls d)\<rparr>,
         False)
      \<and> length (evictList (fst (Add2 d now key val))) = length (evictList d)
      \<and> dom (items (fst (Add2 d now key val))) = dom (items d))"
proof -
  have 1: "AddWithExp c now key val expiry =
        Some (c\<lparr>evictList := (key, val) # remove_node key (evictList c),
                items := (items c)(key \<mapsto> val),
                evictCalls :=
                  (if onEvict c then evictCalls c @ [(key, old)] else evictCalls c)\<rparr>,
              False)" if "well_formed c" "items c key = Some old"
    using that by (rule AddWithExp_existing)
  have 2: "map_option (\<lambda>r. length (evictList (fst r))) (AddWithExp c now key val expiry)
          = Some (length (evictList c))"
    if "well_formed c" "items c key = Some old"
    using that length_front [OF that, of val] by (simp add: AddWithExp_existing)
  have 3: "map_option (\<lambda>r. dom (items (fst r))) (AddWithExp c now key val expiry)
          = Some (dom (items c))"
    if "well_formed c" "items c key = Some old"
    using that by (auto simp: AddWithExp_existing)
  have 4: "Add c now key val = AddWithExp c now key val 0"
    by (simp add: Add_def)
  have 5: "Add2 d now key val =
        (d\<lparr>evictList := (key, val) # remove_node key (evictList d),
           items := (items d)(key \<mapsto> val),
           evictCalls := (if onEvict d then evictCalls d @ [(key, old)] else evictCalls d)\<rparr>,
         False)" if "well_formed d" "items d key = Some old"
    using that by (rule Add2_existing)
  have 6: "length (evictList (fst (Add2 d now key val))) = length (evictList d)"
    if "well_formed d" "items d key = Some old"
    using that length_front [OF that, of val] by (simp add: Add2_existing)
  have 7: "dom (items (fst (Add2 d now key val))) = dom (items d)"
    if "well_formed d" "items d key = Some old"
    using that by (auto simp: Add2_existing)
  from 1 2 3 4 5 6 7 show ?thesis by blast
qed


text \<open>The theorem of C6 at \<open>lruA\<close> (key 1) and \<open>lruF\<close> (key 2).\<close>

theorem C6_witness:
  "AddWithExp lruA 10 1 11 0 =
     Some (lruA\<lparr>evictList := [(1, 11), (2, 20)], items := (items lruA)(1 \<mapsto> 11),
                evictCalls := [(1, 10)]\<rparr>, False)
   \<and> Add2 lruF 7 2 21 =
     (lruF\<lparr>evictList := [(2, 21), (1, 10)], items := (items lruF)(2 \<mapsto> 21),
           evictCalls := [(2, 20)]\<rparr>, False)"
proof -
  have a: "items lruA 1 = Some 10" "remove_node 1 (evictList lruA) = [(2, 20)]"
    "onEvict lruA" "evictCalls lruA = []"
    by (simp_all add: lruA_def remove_node_def)
  have f: "items lruF 2 = Some 20" "remove_node 2 (evictList lruF) = [(1, 10)]"
    "onEvict lruF" "evictCalls lruF = []"
    by (simp_all add: lruF_def remove_node_def)
  show ?thesis
    using C6_add_existing_key [of lruA 1 10 10 11 0 lruF]
      C6_add_existing_key [of lruA 2 20 7 21 0 lruF]
      well_formed_lruA well_formed_lruF a f
    by simp
qed

section \<open>C7: \<open>Remove\<close>\<close>

lemma Remove_resident:
  "items c key = Some v \<Longrightarrow>
     Remove c now key = (removeElement c (key, v), \<not> KeyHasExpired c now key)"
  by (simp add: Remove_def)

lemma Remove2_resident:
  "items c key = Some v \<Longrightarrow>
     Remove2 c now key = (removeElement c (key, v), \<not> KeyHasExpired c now key)"
  by (simp add: Remove2_def)

lemma removeElement_eq:
  "removeElement c e =
     c\<lparr>evictList := remove_node (fst e) (evictList c),
       items := (items c)(fst e := None),
       itemExpiries := (itemExpiries c)(fst e := None),
       evictCalls := (if onEvict c then evictCalls c @ [e] else evictCalls c)\<rparr>"
  by (simp add: removeElement_def fire_def)

lemma length_removeElement_resident:
  assumes w: "well_formed c" and r: "items c key = Some v"
  shows "Suc (length (evictList (removeElement c (key, v)))) = length (evictList c)"
  using length_remove_node_distinct [of "evictList c" "(key, v)"] w well_formed_resident [OF w r]
  by (simp add: well_formed_def removeElement_fields)


text \<open>
  C7. When the key is resident, \<open>Remove\<close> removes the entry whether it has expired or
  not: its node leaves the list, its key leaves the key index, its expiry record is
  deleted, and the callback, when one is set, is called with the key and the value. The
  result is true exactly when the key was resident and had not expired when \<open>Remove\<close>
  was called. When the key is absent the result is false and the cache is unchanged.
  Both engines.
\<close>

theorem C7_remove:
  "(items c key = Some v \<longrightarrow>
      Remove c now key =
        (c\<lparr>evictList := remove_node key (evictList c),
           items := (items c)(key := None),
           itemExpiries := (itemExpiries c)(key := None),
           evictCalls := (if onEvict c then evictCalls c @ [(key, v)] else evictCalls c)\<rparr>,
         \<not> KeyHasExpired c now key)
      \<and> (well_formed c \<longrightarrow>
            Suc (length (evictList (fst (Remove c now key)))) = length (evictList c)))
   \<and> (items c key = None \<longrightarrow> Remove c now key = (c, False))
   \<and> snd (Remove c now key) = (items c key \<noteq> None \<and> \<not> KeyHasExpired c now key)
   \<and> (items d key = Some v \<longrightarrow>
      Remove2 d now key =
        (d\<lparr>evictList := remove_node key (evictList d),
           items := (items d)(key := None),
           itemExpiries := (itemExpiries d)(key := None),
           evictCalls := (if onEvict d then evictCalls d @ [(key, v)] else evictCalls d)\<rparr>,
         \<not> KeyHasExpired d now key)
      \<and> (well_formed d \<longrightarrow>
            Suc (length (evictList (fst (Remove2 d now key)))) = length (evictList d)))
   \<and> (items d key = None \<longrightarrow> Remove2 d now key = (d, False))
   \<and> snd (Remove2 d now key) = (items d key \<noteq> None \<and> \<not> KeyHasExpired d now key)"
proof -
  have 1: "Remove c now key =
        (c\<lparr>evictList := remove_node key (evictList c),
           items := (items c)(key := None),
           itemExpiries := (itemExpiries c)(key := None),
           evictCalls := (if onEvict c then evictCalls c @ [(key, v)] else evictCalls c)\<rparr>,
         \<not> KeyHasExpired c now key)" if "items c key = Some v"
    using that by (simp add: Remove_resident removeElement_eq)
  have 2: "Suc (length (evictList (fst (Remove c now key)))) = length (evictList c)"
    if "items c key = Some v" "well_formed c"
    using that by (simp add: Remove_resident length_removeElement_resident)
  have 3: "Remove c now key = (c, False)" if "items c key = None"
    using that by (simp add: Remove_def)
  have 4: "snd (Remove c now key) = (items c key \<noteq> None \<and> \<not> KeyHasExpired c now key)"
    by (cases "items c key") (simp_all add: Remove_def)
  have 5: "Remove2 d now key =
        (d\<lparr>evictList := remove_node key (evictList d),
           items := (items d)(key := None),
           itemExpiries := (itemExpiries d)(key := None),
           evictCalls := (if onEvict d then evictCalls d @ [(key, v)] else evictCalls d)\<rparr>,
         \<not> KeyHasExpired d now key)" if "items d key = Some v"
    using that by (simp add: Remove2_resident removeElement_eq)
  have 6: "Suc (length (evictList (fst (Remove2 d now key)))) = length (evictList d)"
    if "items d key = Some v" "well_formed d"
    using that by (simp add: Remove2_resident length_removeElement_resident)
  have 7: "Remove2 d now key = (d, False)" if "items d key = None"
    using that by (simp add: Remove2_def)
  have 8: "snd (Remove2 d now key) = (items d key \<noteq> None \<and> \<not> KeyHasExpired d now key)"
    by (cases "items d key") (simp_all add: Remove2_def)
  from 1 2 3 4 5 6 7 8 show ?thesis by blast
qed


text \<open>The theorem of C7 at \<open>lruA\<close> and \<open>lruF\<close>: an expired, an unexpired and an absent key.\<close>

theorem C7_witness:
  "snd (Remove lruA 10 1) = False \<and> evictList (fst (Remove lruA 10 1)) = [(2, 20)]
   \<and> items (fst (Remove lruA 10 1)) 1 = None \<and> itemExpiries (fst (Remove lruA 10 1)) 1 = None
   \<and> evictCalls (fst (Remove lruA 10 1)) = [(1, 10)]
   \<and> snd (Remove lruA 2 1) = True \<and> evictList (fst (Remove lruA 2 1)) = [(2, 20)]
   \<and> Remove lruA 10 3 = (lruA, False)
   \<and> snd (Remove2 lruF 7 1) = False \<and> evictList (fst (Remove2 lruF 7 1)) = [(2, 20)]
   \<and> snd (Remove2 lruF 7 2) = True \<and> evictList (fst (Remove2 lruF 7 2)) = [(1, 10)]
   \<and> Remove2 lruF 7 3 = (lruF, False)"
proof -
  have a: "items lruA 1 = Some 10" "items lruA 3 = None" "remove_node 1 (evictList lruA) = [(2, 20)]"
    "onEvict lruA" "evictCalls lruA = []" "KeyHasExpired lruA 10 1" "\<not> KeyHasExpired lruA 2 1"
    by (simp_all add: lruA_def remove_node_def KeyHasExpired_def)
  have f: "items lruF 1 = Some 10" "items lruF 2 = Some 20" "items lruF 3 = None"
    "remove_node 1 (evictList lruF) = [(2, 20)]" "remove_node 2 (evictList lruF) = [(1, 10)]"
    "onEvict lruF" "evictCalls lruF = []" "KeyHasExpired lruF 7 1" "\<not> KeyHasExpired lruF 7 2"
    by (simp_all add: lruF_def remove_node_def KeyHasExpired_def)
  show ?thesis
    using C7_remove [of lruA 1 10 10 lruF] C7_remove [of lruA 1 10 2 lruF]
      C7_remove [of lruA 3 0 10 lruF]
      C7_remove [of lruA 1 10 7 lruF] C7_remove [of lruA 2 20 7 lruF]
      C7_remove [of lruA 3 0 7 lruF] a f
    by simp
qed

section \<open>C8: \<open>Contains\<close> and \<open>Peek\<close> on an expired entry\<close>

text \<open>What \<open>Contains\<close> and \<open>Peek\<close> return, by the state of the key.\<close>

lemma Contains_cases:
  "Contains c now key =
     (case items c key of
        None \<Rightarrow> (c, False)
      | Some v \<Rightarrow> if KeyHasExpired c now key then (removeElement c (key, v), False)
                  else (c, True))"
  by (simp add: Contains_def split: option.splits)

lemma Peek_cases:
  "Peek c now key =
     (case items c key of
        None \<Rightarrow> (c, 0, False)
      | Some v \<Rightarrow> if KeyHasExpired c now key then (removeElement c (key, v), 0, True)
                  else (c, v, True))"
  by (simp add: Peek_def split: option.splits)

lemma Contains2_cases:
  "Contains2 c now key = (c, items c key \<noteq> None)"
  by (auto simp: Contains2_def Let_def)

lemma Peek2_cases:
  "Peek2 c now key =
     (case items c key of
        None \<Rightarrow> (c, 0, False)
      | Some v \<Rightarrow> if KeyHasExpired c now key then (c, 0, True) else (c, v, True))"
  by (simp add: Peek2_def split: option.splits)


text \<open>
  C8 at a failing input. In \<open>lruA\<close> key 1 has expired at instant 10. \<open>Peek(1)\<close> of
  part_001 removes the entry, as C8 says, but returns found = true with the zero value:
  the named result \<open>ok\<close> was set by \<open>ent, ok = c.items[key]\<close> and the naked \<open>return\<close>
  returns it. \<open>Contains(1)\<close> of part_001, which declares its own \<open>ok\<close> with \<open>:=\<close>,
  removes the entry and returns false. In part_002 (\<open>lruF\<close>, key 1 expired at instant
  7) both \<open>Contains\<close> and \<open>Peek\<close> return true for the expired key, by the same
  assignment, and remove nothing.
\<close>

theorem C8_Peek_reports_expired_key_found:
  "items lruA 1 = Some 10 \<and> KeyHasExpired lruA 10 1
   \<and> snd (Peek lruA 10 1) = (0, True)
   \<and> evictList (fst (Peek lruA 10 1)) = [(2, 20)]
   \<and> snd (Contains lruA 10 1) = False
   \<and> evictList (fst (Contains lruA 10 1)) = [(2, 20)]
   \<and> items lruF 1 = Some 10 \<and> KeyHasExpired lruF 7 1
   \<and> Contains2 lruF 7 1 = (lruF, True)
   \<and> Peek2 lruF 7 1 = (lruF, 0, True)"
proof -
  have e: "evictList (removeElement lruA (1, 10)) = [(2, 20)]"
    by (simp add: removeElement_fields remove_node_def lruA_def)
  have p: "Peek lruA 10 1 = (removeElement lruA (1, 10), 0, True)"
    by (simp add: Peek_def lruA_key1)
  have c: "Contains lruA 10 1 = (removeElement lruA (1, 10), False)"
    by (simp add: Contains_def lruA_key1)
  have c2: "Contains2 lruF 7 1 = (lruF, True)"
    by (simp add: Contains2_def lruF_key1)
  have p2: "Peek2 lruF 7 1 = (lruF, 0, True)"
    by (simp add: Peek2_def lruF_key1)
  show ?thesis by (simp add: p c c2 p2 e lruA_key1 lruF_key1)
qed

section \<open>C9: construction and the other operations\<close>

text \<open>
  Construction is as C9 says, in both engines: it returns the error exactly when the
  capacity is not positive, and a cache of that capacity, empty, otherwise.
\<close>

lemma New_fails_iff:
  "(\<exists>e. (NewLRUWithEvictTTL n cb ttl :: error + ('k, 'v) LRU) = Inl e) = (n \<le> 0)"
  by (simp add: NewLRUWithEvictTTL_def)

lemma New_succeeds_iff:
  "(\<exists>c :: ('k, 'v) LRU. NewLRUWithEvictTTL n cb ttl = Inr c \<and> size_cap c = n \<and> evictList c = []
      \<and> well_formed c) = (1 \<le> n)"
  by (auto simp: NewLRUWithEvictTTL_def well_formed_def)

lemma New2_fails_iff:
  "(\<exists>e. (NewLRUWithEvictTTL2 n cb ttl ebe :: error + ('k, 'v) LRU2) = Inl e) = (n \<le> 0)"
  by (simp add: NewLRUWithEvictTTL2_def)

lemma New2_succeeds_iff:
  "(\<exists>c :: ('k, 'v) LRU2. NewLRUWithEvictTTL2 n cb ttl ebe = Inr c \<and> size_cap c = n
      \<and> evictList c = [] \<and> well_formed c) = (1 \<le> n)"
  by (auto simp: NewLRUWithEvictTTL2_def well_formed_def)

text \<open>
  On a cache whose sentinel is linked, \<open>Keys\<close> and \<open>Len\<close> return (\<open>Keys_eq\<close>, \<open>Len_eq\<close>), and
  so do \<open>Values\<close>, when the key index and the list agree, and \<open>Resize\<close> of part_002, which
  never touches the sentinel.
\<close>

lemma Values_loop_total:
  "i + length es \<le> length vals \<Longrightarrow>
   \<exists>vals'. Values_loop c now es vals i =
        Some (vals', i + length (filter (\<lambda>e. \<not> KeyHasExpired c now (fst e)) es))
      \<and> length vals' = length vals
      \<and> take (i + length (filter (\<lambda>e. \<not> KeyHasExpired c now (fst e)) es)) vals'
          = take i vals @ map snd (filter (\<lambda>e. \<not> KeyHasExpired c now (fst e)) es)"
proof (induction es arbitrary: vals i)
  case Nil
  then show ?case by simp
next
  case (Cons e es)
  show ?case
  proof (cases "KeyHasExpired c now (fst e)")
    case True
    with Cons.IH [of i vals] Cons.prems show ?thesis by simp
  next
    case False
    from Cons.prems have lt: "i < length vals" by simp
    from Cons.prems have "Suc i + length es \<le> length (vals[i := snd e])" by simp
    from Cons.IH [OF this] obtain vals' where
      k: "Values_loop c now es (vals[i := snd e]) (Suc i) =
            Some (vals', Suc i + length (filter (\<lambda>e. \<not> KeyHasExpired c now (fst e)) es))"
      and l: "length vals' = length (vals[i := snd e])"
      and t: "take (Suc i + length (filter (\<lambda>e. \<not> KeyHasExpired c now (fst e)) es)) vals'
          = take (Suc i) (vals[i := snd e]) @ map snd (filter (\<lambda>e. \<not> KeyHasExpired c now (fst e)) es)"
      by blast
    have "take (Suc i) (vals[i := snd e]) = take i vals @ [snd e]"
      using lt by (simp add: take_Suc_conv_app_nth)
    with False lt k l t show ?thesis by simp
  qed
qed

lemma card_items:
  assumes "well_formed c"
  shows "card (dom (items c)) = length (evictList c)"
proof -
  from assms have "dom (items c) = set (map fst (evictList c))"
    by (simp add: well_formed_def dom_map_of_conv_image_fst)
  moreover from assms have "distinct (map fst (evictList c))" by (simp add: well_formed_def)
  ultimately show ?thesis by (simp add: distinct_card del: set_map)
qed

lemma Values_eq:
  assumes w: "well_formed c"
  shows "Values c now = Some (map snd (filter (\<lambda>e. \<not> KeyHasExpired c now (fst e)) (rev (evictList c))))"
proof -
  let ?es = "rev (evictList c)"
  let ?vs = "replicate (card (dom (items c))) (0::'b)"
  have "0 + length ?es \<le> length ?vs" by (simp add: card_items [OF w])
  from Values_loop_total [OF this, of c now] obtain vals' where
    k: "Values_loop c now ?es ?vs 0 = Some (vals', length (filter (\<lambda>e. \<not> KeyHasExpired c now (fst e)) ?es))"
    and l: "length vals' = length ?vs"
    and t: "take (length (filter (\<lambda>e. \<not> KeyHasExpired c now (fst e)) ?es)) vals'
          = map snd (filter (\<lambda>e. \<not> KeyHasExpired c now (fst e)) ?es)"
    by auto
  have "length (filter (\<lambda>e. \<not> KeyHasExpired c now (fst e)) ?es) \<le> length vals'"
    using l length_filter_le [of _ ?es] by (simp add: card_items [OF w])
  with k t show ?thesis by (simp add: Values_def)
qed

lemma Resize2_linked:
  "\<not> rootUnlinked c \<Longrightarrow> \<exists>c' k. Resize2 c now n = Some (c', k) \<and> size_cap c' = n \<and> 0 \<le> k"
  by (simp add: Resize2_def Len_eq Let_def)


text \<open>
  C9 at a failing input of part_001. \<open>lruE\<close> is the cache of capacity 2 and no default
  TTL after \<open>AddWithExp(1, 10, expiry 5)\<close>. At instant 10 its only entry has expired.
  \<open>RemoveOldest\<close> returns the zero key and the zero value with found = true and leaves
  \<open>lruR\<close>: the entry is removed, and so is the sentinel of the list, which \<open>ent.prev\<close>
  reaches at the front; the list's length counter is -1. On that cache \<open>Len\<close>, \<open>Keys\<close> and
  \<open>Resize\<close> do not return: they panic, where \<open>Keys\<close> makes a slice of the length of the list.
\<close>

theorem C9_operations_panic_once_the_sentinel_is_removed:
  "NewLRUWithEvictTTL 2 True 0 = Inr lru0
   \<and> run_adds lru0 [AddWithExpCall 1 1 10 5] = Some lruE
   \<and> RemoveOldest lruE 10 = Some (lruR, 0, 0, True)
   \<and> evictList lruR = [] \<and> rootUnlinked lruR \<and> list_len lruR = - 1
   \<and> evictCalls lruR = [(1, 10), (0, 0)]
   \<and> Keys lruR 10 = None
   \<and> Len lruR 10 = None
   \<and> Resize lruR 10 2 = None"
proof -
  have r: "evictList lruR = []" "rootUnlinked lruR" "list_len lruR = - 1"
    "evictCalls lruR = [(1, 10), (0, 0)]" "Keys lruR 10 = None" "Len lruR 10 = None"
    "Resize lruR 10 2 = None"
    by (simp_all add: lruR_def list_len_def Len_def Keys_def Resize_def)
  show ?thesis
    by (intro conjI New_lru0 lruE_built RemoveOldest_lruE r)
qed

section \<open>C10: \<open>Resize\<close> and the capacity\<close>

text \<open>
  \<open>Resize\<close> stores its argument unchecked. In the engine of part_002, whose eviction
  never touches the sentinel of the list, it returns for every integer
  (\<open>Resize2_linked\<close>), and on a capacity that is not positive every \<open>Add\<close> of a new key
  removes one entry and returns true:
\<close>

lemma Add2_nonpositive:
  assumes u: "\<not> rootUnlinked c" and s: "size_cap c \<le> 0" and r: "items c key = None"
  shows "\<exists>ent. ent \<in> set ((key, val) # evictList c) \<and>
           Add2 c t key val =
             (removeElement (pushed c key val
                (if itemTTL c > 0 then (itemExpiries c)(key \<mapsto> t + itemTTL c)
                 else itemExpiries c)) ent, True)"
proof -
  from s have o: "int (length (evictList c)) + 1 > size_cap c" by simp
  from Add2_overflow [OF r u o] show ?thesis .
qed

text \<open>
  C10 at a failing input of part_001. \<open>lruE\<close> is the cache of capacity 2 and no default
  TTL after \<open>AddWithExp(1, 10, expiry 5)\<close>; at instant 10 its only entry has expired.
  \<open>Resize(-1)\<close> returns 1 and stores -1, but the eviction it makes removes the expired
  entry and then the sentinel of the list, with a second call of the callback, on the
  zero key and the zero value; the list's length counter is -1. After that \<open>Resize\<close> does
  not succeed for any of the arguments 0, 2 and -1: it panics in \<open>Len\<close>.
\<close>

theorem C10_Resize_panics_after_Resize_to_negative:
  "NewLRUWithEvictTTL 2 True 0 = Inr lru0
   \<and> run_adds lru0 [AddWithExpCall 1 1 10 5] = Some lruE
   \<and> Resize lruE 10 (- 1) = Some (lruR\<lparr>size_cap := - 1\<rparr>, 1)
   \<and> rootUnlinked (lruR\<lparr>size_cap := - 1\<rparr>) \<and> list_len (lruR\<lparr>size_cap := - 1\<rparr>) = - 1
   \<and> evictCalls (lruR\<lparr>size_cap := - 1\<rparr>) = [(1, 10), (0, 0)]
   \<and> Resize (lruR\<lparr>size_cap := - 1\<rparr>) 10 0 = None
   \<and> Resize (lruR\<lparr>size_cap := - 1\<rparr>) 10 2 = None
   \<and> Resize (lruR\<lparr>size_cap := - 1\<rparr>) 10 (- 1) = None"
proof -
  have a: "Resize lruE 10 (- 1) = Some (lruR\<lparr>size_cap := - 1\<rparr>, 1)"
    by (simp add: Resize_def Len_def Keys_def wrap64_def oldest_eval lruE_def lruR_def fun_eq_iff)
  have r: "rootUnlinked (lruR\<lparr>size_cap := - 1\<rparr>)" "list_len (lruR\<lparr>size_cap := - 1\<rparr>) = - 1"
    "evictCalls (lruR\<lparr>size_cap := - 1\<rparr>) = [(1, 10), (0, 0)]"
    "Resize (lruR\<lparr>size_cap := - 1\<rparr>) 10 0 = None"
    "Resize (lruR\<lparr>size_cap := - 1\<rparr>) 10 2 = None"
    "Resize (lruR\<lparr>size_cap := - 1\<rparr>) 10 (- 1) = None"
    by (simp_all add: lruR_def list_len_def Len_def Keys_def Resize_def)
  show ?thesis
    by (intro conjI New_lru0 lruE_built a r)
qed

end
